theory Spec2Isabelle
  imports Main "HOL-Library.Char_ord" "HOL-Library.List_Lexorder" "HOL-Library.Sublist"
    "HOL-Library.Word"
begin

section \<open>The compose stack controller of compose\_api.go\<close>

text \<open>
  The development embeds the type \<^verbatim>\<open>dockerCompose\<close> of \<^verbatim>\<open>compose_api.go\<close> and its
  methods. The controller talks to three collaborators that live in other packages: the
  compose-go project compiler (\<^verbatim>\<open>cli\<close>), the docker/compose service (\<^verbatim>\<open>api.Service\<close>) and
  the Docker API client. None of them is part of the file, so each of their functions and
  constants is a field of the record \<open>extern\<close> and every theorem holds for all of them.

  The engine behind the collaborators has state of its own (containers come and go), so
  its functions take and return a world \<open>'w\<close>. The history of the calls the controller
  has issued is kept beside the world, so that "no call is made" and "one query is made"
  can be stated.

  The compiler reads manifests and the process environment; within one run these are
  fixed, so its functions are plain functions of their arguments. A \<^verbatim>\<open>context.Context\<close>
  only reaches the collaborators and is part of how the world answers.

  All public methods of the controller hold \<^verbatim>\<open>d.lock\<close> from entry to exit; the model is
  sequential and runs one method at a time, which is what the lock enforces.

  \<^verbatim>\<open>sort.Strings\<close>, \<^verbatim>\<open>sort.SearchStrings\<close> and \<^verbatim>\<open>strings.Join\<close> belong to the Go standard
  library and are written out below as the library defines them.
\<close>

subsection \<open>Errors\<close>

text \<open>
  A Go \<^verbatim>\<open>error\<close> is either built in this file by \<^verbatim>\<open>fmt.Errorf\<close> (the message is kept) or
  an error value of the engine (the compose service or the Docker client). The engine's
  values are its own: the controller passes them on as they are and never builds one, so
  the engine's operations return a \<open>foreign\<close> and the controller returns it as \<open>Foreign\<close>.
\<close>

type_synonym foreign = string

datatype error = Errorf string | Foreign foreign

subsection \<open>Data\<close>

text \<open>\<^verbatim>\<open>types.ServiceConfig\<close>: the fields the file reads or writes.\<close>

record ServiceConfig =
  Name :: string
  CustomLabels :: "string \<rightharpoonup> string"

text \<open>\<^verbatim>\<open>types.Project\<close>: the fields the file reads or writes.\<close>

record Project =
  Project_Name :: string
  WorkingDir :: string
  ComposeFiles :: "string list"
  Project_Services :: "ServiceConfig list"

text \<open>\<^verbatim>\<open>cli.ProjectOptions\<close>; \<^verbatim>\<open>withEnv\<close> uses \<open>Environment\<close>, \<^verbatim>\<open>compileProject\<close> reads \<open>EnvFile\<close>.\<close>

record ProjectOptions =
  Options_Name :: string
  ConfigPaths :: "string list"
  Environment :: "string \<rightharpoonup> string"
  EnvFile :: string

text \<open>
  \<^verbatim>\<open>cli.ProjectOptionsFn = func(*ProjectOptions) error\<close>: the function updates the options
  in place and returns an error or nil, so the model returns the options and the error.
\<close>

type_synonym ProjectOptionsFn = "ProjectOptions \<Rightarrow> ProjectOptions \<times> error option"

text \<open>\<^verbatim>\<open>DockerContainer\<close> as built by \<^verbatim>\<open>lookupContainer\<close>: the identifier (the provider is
  always the controller's own Docker client).\<close>

record DockerContainer =
  ID :: string

text \<open>\<^verbatim>\<open>types2.Container\<close>, a descriptor returned by the list query.\<close>

record Container =
  Container_ID :: string

text \<open>\<^verbatim>\<open>types2.ContainerListOptions\<close>; the filters are the arguments given to
  \<^verbatim>\<open>filters.NewArgs\<close>.\<close>

record ContainerListOptions =
  All_containers :: bool
  Filters :: "(string \<times> string) list"

text \<open>\<^verbatim>\<open>api.DownOptions\<close>: the fields set by \<^verbatim>\<open>Down\<close> and by the down options.\<close>

record DownOptions =
  Down_Project :: "Project option"
  Down_RemoveOrphans :: bool
  Images :: string

text \<open>\<^verbatim>\<open>api.CreateOptions\<close>, \<^verbatim>\<open>api.StartOptions\<close> and \<^verbatim>\<open>api.UpOptions\<close> as \<^verbatim>\<open>Up\<close> fills them.\<close>

record CreateOptions =
  Create_Services :: "string list"
  Create_Recreate :: string
  Create_RecreateDependencies :: string
  Create_RemoveOrphans :: bool

record StartOptions =
  Start_Project :: "Project option"
  Start_Wait :: bool

record UpOptions =
  Create :: CreateOptions
  Start :: StartOptions

text \<open>\<^verbatim>\<open>stackUpOptions\<close>: the fields \<^verbatim>\<open>Up\<close> and the up options use. The field \<^verbatim>\<open>Project\<close> is a
  pointer to the controller's project that no option of the file redirects, so \<^verbatim>\<open>Up\<close>
  reads the controller's project where the source reads \<^verbatim>\<open>upOptions.Project\<close>.\<close>

record stackUpOptions =
  Up_Services :: "string list"
  Up_Recreate :: string
  Up_RecreateDependencies :: string
  Up_RemoveOrphans :: bool
  Up_Wait :: bool

text \<open>
  \<^verbatim>\<open>wait.Strategy\<close> is an interface with the one method \<^verbatim>\<open>WaitUntilReady(ctx, target) error\<close>;
  a strategy is modelled as that method. Strategies are supplied by the caller and may
  return any error.
\<close>

type_synonym 'w Strategy = "DockerContainer \<Rightarrow> 'w \<Rightarrow> error option \<times> 'w"

text \<open>
  The struct \<^verbatim>\<open>dockerCompose\<close>. The Go map \<^verbatim>\<open>containers\<close> is read and written by key only and
  is a HOL map; \<^verbatim>\<open>waitStrategies\<close> is also ranged over, so it is the list of its entries
  (distinct keys) in the order the \<^verbatim>\<open>range\<close> statement happens to visit them. The lock
  and the two clients are not data of the model (see above).
\<close>

record 'w dockerCompose =
  name :: string
  configs :: "string list"
  waitStrategies :: "(string \<times> 'w Strategy) list"
  containers :: "string \<rightharpoonup> DockerContainer"
  projectOptions :: "ProjectOptionsFn list"
  project :: "Project option"

subsection \<open>The collaborators\<close>

text \<open>A call issued to the compose service, the Docker client or a readiness strategy.\<close>

datatype call =
    UpCall Project UpOptions
  | DownCall string DownOptions
  | ListCall ContainerListOptions
  | WaitCall string DockerContainer

text \<open>
  Everything \<^verbatim>\<open>compose_api.go\<close> imports from \<^verbatim>\<open>compose-go/cli\<close>, \<^verbatim>\<open>compose-go/types\<close>,
  \<^verbatim>\<open>docker/compose/v2/pkg/api\<close> and the Docker client: the label-name constants, the
  recreate policy constant, the project compiler and the three engine operations.
\<close>

record 'w extern =
  ProjectLabel :: string
  ServiceLabel :: string
  VersionLabel :: string
  WorkingDirLabel :: string
  ConfigFilesLabel :: string
  OneoffLabel :: string
  EnvironmentFileLabel :: string
  ComposeVersion :: string
  RecreateDiverged :: string
  NewProjectOptions :: "string list \<Rightarrow> ProjectOptionsFn list \<Rightarrow> error + ProjectOptions"
  ProjectFromOptions :: "ProjectOptions \<Rightarrow> error + Project"
  WithName :: "string \<Rightarrow> ProjectOptionsFn"
  WithDefaultConfigPath :: ProjectOptionsFn
  WithOsEnv :: ProjectOptionsFn
  ServiceNames :: "Project \<Rightarrow> string list"
  composeService_Up :: "Project \<Rightarrow> UpOptions \<Rightarrow> 'w \<Rightarrow> foreign option \<times> 'w"
  composeService_Down :: "string \<Rightarrow> DownOptions \<Rightarrow> 'w \<Rightarrow> foreign option \<times> 'w"
  ContainerList :: "ContainerListOptions \<Rightarrow> 'w \<Rightarrow> (foreign + Container list) \<times> 'w"

text \<open>The controller, the world it acts on and the calls issued so far (oldest first).\<close>

record 'w system =
  ctl :: "'w dockerCompose"
  world :: 'w
  calls :: "call list"

subsection \<open>The container cache: \<^verbatim>\<open>lookupContainer\<close> and \<^verbatim>\<open>ServiceContainer\<close>\<close>

definition listOptions :: "'w extern \<Rightarrow> string \<Rightarrow> string \<Rightarrow> ContainerListOptions" where
  "listOptions X stack svcName =
     \<lparr>All_containers = True,
      Filters = [(''label'', ProjectLabel X @ ''='' @ stack),
                 (''label'', ServiceLabel X @ ''='' @ svcName)]\<rparr>"

definition lookupContainer ::
  "'w extern \<Rightarrow> string \<Rightarrow> 'w system \<Rightarrow> (error + DockerContainer) \<times> 'w system" where
  "lookupContainer X svcName s =
     (case containers (ctl s) svcName of
        Some container \<Rightarrow> (Inr container, s)
      | None \<Rightarrow>
          (let opts = listOptions X (name (ctl s)) svcName;
               (res, w') = ContainerList X opts (world s);
               s1 = s\<lparr>world := w', calls := calls s @ [ListCall opts]\<rparr>
           in case res of
                Inl err \<Rightarrow> (Inl (Foreign err), s1)
              | Inr [] \<Rightarrow>
                  (Inl (Errorf (''no container found for service name '' @ svcName)), s1)
              | Inr (containerInstance # _) \<Rightarrow>
                  (let container = \<lparr>ID = Container_ID containerInstance\<rparr>
                   in (Inr container,
                       s1\<lparr>ctl := (ctl s1)\<lparr>containers := (containers (ctl s1))(svcName \<mapsto> container)\<rparr>\<rparr>))))"

definition ServiceContainer ::
  "'w extern \<Rightarrow> string \<Rightarrow> 'w system \<Rightarrow> (error + DockerContainer) \<times> 'w system" where
  "ServiceContainer X svcName s = lookupContainer X svcName s"

subsection \<open>\<^verbatim>\<open>Services\<close> and \<^verbatim>\<open>Down\<close>\<close>

text \<open>\<^verbatim>\<open>d.project.ServiceNames()\<close> dereferences \<^verbatim>\<open>d.project\<close>; on a nil project the Go runtime
  panics, which is the result \<open>None\<close>.\<close>

definition Services :: "'w extern \<Rightarrow> 'w system \<Rightarrow> string list option" where
  "Services X s = (case project (ctl s) of None \<Rightarrow> None | Some p \<Rightarrow> Some (ServiceNames X p))"

text \<open>\<^verbatim>\<open>type RemoveImages uint8\<close> with its two constants.\<close>

type_synonym RemoveImages = "8 word"

definition RemoveImagesAll :: RemoveImages where
  "RemoveImagesAll = 0"

definition RemoveImagesLocal :: RemoveImages where
  "RemoveImagesLocal = 1"

text \<open>The values of the file that have an \<^verbatim>\<open>applyToStackDown\<close> method taking
  \<^verbatim>\<open>*stackDownOptions\<close>.\<close>

datatype StackDownOption = DownRemoveOrphans bool | DownRemoveImages RemoveImages

fun applyToStackDown :: "StackDownOption \<Rightarrow> DownOptions \<Rightarrow> DownOptions" where
  "applyToStackDown (DownRemoveOrphans ro) opt = opt\<lparr>Down_RemoveOrphans := ro\<rparr>"
| "applyToStackDown (DownRemoveImages ri) opt =
     (if ri = RemoveImagesAll then opt\<lparr>Images := ''all''\<rparr>
      else if ri = RemoveImagesLocal then opt\<lparr>Images := ''local''\<rparr>
      else opt)"

definition Down ::
  "'w extern \<Rightarrow> StackDownOption list \<Rightarrow> 'w system \<Rightarrow> error option \<times> 'w system" where
  "Down X opts s =
     (let options = fold applyToStackDown opts
            \<lparr>Down_Project = project (ctl s), Down_RemoveOrphans = False, Images = []\<rparr>;
          (err, w') = composeService_Down X (name (ctl s)) options (world s)
      in (map_option Foreign err,
          s\<lparr>world := w', calls := calls s @ [DownCall (name (ctl s)) options]\<rparr>))"

subsection \<open>Configuration: \<^verbatim>\<open>WaitForService\<close>, \<^verbatim>\<open>WithEnv\<close>, \<^verbatim>\<open>WithOsEnv\<close>\<close>

text \<open>Assignment \<^verbatim>\<open>m[k] = v\<close> on a Go map kept as the list of its entries.\<close>

fun assign :: "'k \<Rightarrow> 'v \<Rightarrow> ('k \<times> 'v) list \<Rightarrow> ('k \<times> 'v) list" where
  "assign k v [] = [(k, v)]"
| "assign k v ((k', v') # m) = (if k = k' then (k, v) # m else (k', v') # assign k v m)"

definition WaitForService :: "string \<Rightarrow> 'w Strategy \<Rightarrow> 'w system \<Rightarrow> 'w system" where
  "WaitForService svc strategy s =
     s\<lparr>ctl := (ctl s)\<lparr>waitStrategies := assign svc strategy (waitStrategies (ctl s))\<rparr>\<rparr>"

text \<open>
  \<^verbatim>\<open>withEnv(env)\<close> returns a closure over \<^verbatim>\<open>env\<close>. The argument is a Go map that the closure
  ranges over: it is given as the list of its entries (distinct keys) in the order the
  \<^verbatim>\<open>range\<close> statement visits them. The closure writes into \<^verbatim>\<open>options.Environment\<close> as it
  goes and returns at the first key that is already there.
\<close>

fun withEnv :: "(string \<times> string) list \<Rightarrow> ProjectOptionsFn" where
  "withEnv [] options = (options, None)"
| "withEnv ((k, v) # env) options =
     (if Environment options k \<noteq> None
      then (options, Some (Errorf (''environment with key '' @ k @ '' already set'')))
      else withEnv env (options\<lparr>Environment := (Environment options)(k \<mapsto> v)\<rparr>))"

text \<open>\<^verbatim>\<open>WithEnv\<close> and \<^verbatim>\<open>WithOsEnv\<close> return the controller (as \<^verbatim>\<open>ComposeStack\<close>) and nothing else.
  The method \<^verbatim>\<open>WithOsEnv\<close> is \<open>WithOsEnv_ctl\<close> here; \<open>WithOsEnv\<close> is the option \<^verbatim>\<open>cli.WithOsEnv\<close>
  that it registers.\<close>

definition WithEnv :: "(string \<times> string) list \<Rightarrow> 'w system \<Rightarrow> 'w system" where
  "WithEnv m s = s\<lparr>ctl := (ctl s)\<lparr>projectOptions := projectOptions (ctl s) @ [withEnv m]\<rparr>\<rparr>"

definition WithOsEnv_ctl :: "'w extern \<Rightarrow> 'w system \<Rightarrow> 'w system" where
  "WithOsEnv_ctl X s = s\<lparr>ctl := (ctl s)\<lparr>projectOptions := projectOptions (ctl s) @ [WithOsEnv X]\<rparr>\<rparr>"

subsection \<open>\<^verbatim>\<open>compileProject\<close>\<close>

text \<open>\<^verbatim>\<open>strings.Join\<close> of the Go standard library.\<close>

fun Join :: "string list \<Rightarrow> string \<Rightarrow> string" where
  "Join [] sep = []"
| "Join [x] sep = x"
| "Join (x # y # xs) sep = x @ sep @ Join (y # xs) sep"

text \<open>
  The body of the loop over \<^verbatim>\<open>proj.Services\<close>: the map literal, built entry by entry, then
  the environment-file entry, then the service written back with its new labels.
\<close>

definition stampLabels :: "'w extern \<Rightarrow> Project \<Rightarrow> ProjectOptions \<Rightarrow> ServiceConfig \<Rightarrow> ServiceConfig" where
  "stampLabels X proj compiledOptions s =
     (let labels = Map.empty
            (ProjectLabel X \<mapsto> Project_Name proj,
             ServiceLabel X \<mapsto> Name s,
             VersionLabel X \<mapsto> ComposeVersion X,
             WorkingDirLabel X \<mapsto> WorkingDir proj,
             ConfigFilesLabel X \<mapsto> Join (ComposeFiles proj) '','',
             OneoffLabel X \<mapsto> ''False'');
          labels' = (if EnvFile compiledOptions \<noteq> []
                     then labels(EnvironmentFileLabel X \<mapsto> EnvFile compiledOptions)
                     else labels)
      in s\<lparr>CustomLabels := labels'\<rparr>)"

definition compileProject :: "'w extern \<Rightarrow> 'w dockerCompose \<Rightarrow> error + Project" where
  "compileProject X d =
     (let opts = projectOptions d @ [WithName X (name d), WithDefaultConfigPath X]
      in case NewProjectOptions X (configs d) opts of
           Inl err \<Rightarrow> Inl err
         | Inr compiledOptions \<Rightarrow>
             (case ProjectFromOptions X compiledOptions of
                Inl err \<Rightarrow> Inl err
              | Inr proj \<Rightarrow>
                  Inr (proj\<lparr>Project_Services :=
                         map (stampLabels X proj compiledOptions) (Project_Services proj)\<rparr>)))"

subsection \<open>\<^verbatim>\<open>Up\<close>\<close>

text \<open>The values of the file that have an \<^verbatim>\<open>applyToStackUp\<close> method taking \<^verbatim>\<open>*stackUpOptions\<close>;
  \<^verbatim>\<open>RunServices\<close> is the only constructor of a \<^verbatim>\<open>stackUpOptionFunc\<close>.\<close>

datatype StackUpOption = RunServices "string list" | UpRemoveOrphans bool | Wait bool

fun applyToStackUp :: "StackUpOption \<Rightarrow> stackUpOptions \<Rightarrow> stackUpOptions" where
  "applyToStackUp (RunServices serviceNames) opt = opt\<lparr>Up_Services := serviceNames\<rparr>"
| "applyToStackUp (UpRemoveOrphans ro) opt = opt\<lparr>Up_RemoveOrphans := ro\<rparr>"
| "applyToStackUp (Wait w) opt = opt\<lparr>Up_Wait := w\<rparr>"

text \<open>
  \<^verbatim>\<open>sort.Search\<close> of the Go standard library: binary search for the least index in
  \<open>[0, n)\<close> at which \<open>f\<close> holds, \<open>n\<close> if there is none. The midpoint is
  \<^verbatim>\<open>int(uint(i+j) >> 1)\<close>, which is \<open>(i + j) div 2\<close> for slice lengths.
\<close>

function Search_loop :: "(nat \<Rightarrow> bool) \<Rightarrow> nat \<Rightarrow> nat \<Rightarrow> nat" where
  "Search_loop f i j =
     (if i < j
      then (let h = (i + j) div 2
            in if \<not> f h then Search_loop f (h + 1) j else Search_loop f i h)
      else i)"
  by pat_completeness auto
termination
  by (relation "measure (\<lambda>(f, i, j). j - i)") auto

declare Search_loop.simps [simp del]

definition Search :: "nat \<Rightarrow> (nat \<Rightarrow> bool) \<Rightarrow> nat" where
  "Search n f = Search_loop f 0 n"

text \<open>\<^verbatim>\<open>sort.SearchStrings(a, x)\<close> is \<^verbatim>\<open>Search(len(a), func(i int) bool { return a[i] >= x })\<close>;
  Go compares strings bytewise, as the lexicographic order on \<open>string\<close> does.\<close>

definition SearchStrings :: "string list \<Rightarrow> string \<Rightarrow> nat" where
  "SearchStrings a x = Search (length a) (\<lambda>i. a ! i \<ge> x)"

text \<open>The loop of \<^verbatim>\<open>Up\<close> that rebuilds the service list; \<open>names\<close> is the requested list
  after \<^verbatim>\<open>sort.Strings\<close>, \<open>filteredServices\<close> the slice appended to.\<close>

fun filterLoop :: "string list \<Rightarrow> ServiceConfig list \<Rightarrow> ServiceConfig list \<Rightarrow> ServiceConfig list" where
  "filterLoop names [] filteredServices = filteredServices"
| "filterLoop names (svc # rest) filteredServices =
     (let idx = SearchStrings names (Name svc)
      in if idx < length names \<and> names ! idx = Name svc
         then filterLoop names rest (filteredServices @ [svc])
         else filterLoop names rest filteredServices)"

text \<open>
  The requested names and the project after the \<^verbatim>\<open>if\<close> at the head of the filtering:
  \<^verbatim>\<open>sort.Strings\<close> sorts the requested slice in place, so the sorted names are what the
  compose service receives later.
\<close>

definition filterProject :: "string list \<Rightarrow> Project \<Rightarrow> string list \<times> Project" where
  "filterProject requested proj =
     (if length requested \<noteq> length (Project_Services proj)
      then (let names = sort requested
            in (names, proj\<lparr>Project_Services := filterLoop names (Project_Services proj) []\<rparr>))
      else (requested, proj))"

text \<open>
  The readiness fan-out. Each task of the \<^verbatim>\<open>errgroup\<close> looks its container up and then
  runs its strategy. The tasks are run here one after the other in the order of the list,
  each to its end, which is one of the schedules the group admits; the error returned is
  the first one in that order.
\<close>

definition readinessTask :: "'w extern \<Rightarrow> string \<Rightarrow> 'w Strategy \<Rightarrow> 'w system \<Rightarrow> error option \<times> 'w system" where
  "readinessTask X svc strategy s =
     (case lookupContainer X svc s of
        (Inl err, s1) \<Rightarrow> (Some err, s1)
      | (Inr target, s1) \<Rightarrow>
          (let (err, w') = strategy target (world s1)
           in (err, s1\<lparr>world := w', calls := calls s1 @ [WaitCall svc target]\<rparr>)))"

fun readinessFanOut :: "'w extern \<Rightarrow> (string \<times> 'w Strategy) list \<Rightarrow> 'w system \<Rightarrow> error option \<times> 'w system" where
  "readinessFanOut X [] s = (None, s)"
| "readinessFanOut X ((svc, strategy) # rest) s =
     (let (err, s1) = readinessTask X svc strategy s;
          (err', s2) = readinessFanOut X rest s1
      in (case err of Some e \<Rightarrow> Some e | None \<Rightarrow> err', s2))"

definition upOptionsOf :: "'w extern \<Rightarrow> StackUpOption list \<Rightarrow> Project \<Rightarrow> stackUpOptions" where
  "upOptionsOf X opts proj =
     fold applyToStackUp opts
       \<lparr>Up_Services = ServiceNames X proj,
        Up_Recreate = RecreateDiverged X,
        Up_RecreateDependencies = RecreateDiverged X,
        Up_RemoveOrphans = False,
        Up_Wait = False\<rparr>"

text \<open>The project and the options that \<^verbatim>\<open>Up\<close> hands to the compose service, from the
  compiled project and the up options.\<close>

definition upRequest :: "'w extern \<Rightarrow> StackUpOption list \<Rightarrow> Project \<Rightarrow> Project \<times> UpOptions" where
  "upRequest X opts compiled =
     (let upOptions = upOptionsOf X opts compiled;
          (services, proj) = filterProject (Up_Services upOptions) compiled
      in (proj,
          \<lparr>Create = \<lparr>Create_Services = services,
                      Create_Recreate = Up_Recreate upOptions,
                      Create_RecreateDependencies = Up_RecreateDependencies upOptions,
                      Create_RemoveOrphans = Up_RemoveOrphans upOptions\<rparr>,
           Start = \<lparr>Start_Project = Some proj, Start_Wait = Up_Wait upOptions\<rparr>\<rparr>))"

definition Up ::
  "'w extern \<Rightarrow> StackUpOption list \<Rightarrow> 'w system \<Rightarrow> error option \<times> 'w system" where
  "Up X opts s =
     (case compileProject X (ctl s) of
        Inl err \<Rightarrow> (Some err, s\<lparr>ctl := (ctl s)\<lparr>project := None\<rparr>\<rparr>)
      | Inr compiled \<Rightarrow>
          (let (proj, apiOptions) = upRequest X opts compiled;
               (err, w') = composeService_Up X proj apiOptions (world s);
               s1 = s\<lparr>ctl := (ctl s)\<lparr>project := Some proj\<rparr>,
                      world := w',
                      calls := calls s @ [UpCall proj apiOptions]\<rparr>
           in case err of
                Some e \<Rightarrow> (Some (Foreign e), s1)
              | None \<Rightarrow>
                  if length (waitStrategies (ctl s1)) = 0 then (None, s1)
                  else readinessFanOut X (waitStrategies (ctl s1)) s1))"

subsection \<open>Sequences of calls on one controller\<close>

text \<open>The public methods, as the operations a caller can perform one after another.\<close>

datatype 'w operation =
    OpUp "StackUpOption list"
  | OpDown "StackDownOption list"
  | OpServices
  | OpServiceContainer string
  | OpWaitForService string "'w Strategy"
  | OpWithEnv "(string \<times> string) list"
  | OpWithOsEnv

fun perform :: "'w extern \<Rightarrow> 'w operation \<Rightarrow> 'w system \<Rightarrow> 'w system" where
  "perform X (OpUp opts) s = snd (Up X opts s)"
| "perform X (OpDown opts) s = snd (Down X opts s)"
| "perform X OpServices s = s"
| "perform X (OpServiceContainer svcName) s = snd (ServiceContainer X svcName s)"
| "perform X (OpWaitForService svc strategy) s = WaitForService svc strategy s"
| "perform X (OpWithEnv m) s = WithEnv m s"
| "perform X OpWithOsEnv s = WithOsEnv_ctl X s"

definition performAll :: "'w extern \<Rightarrow> 'w operation list \<Rightarrow> 'w system \<Rightarrow> 'w system" where
  "performAll X ops s = fold (perform X) ops s"

text \<open>The compile options that an operation appends to \<^verbatim>\<open>d.projectOptions\<close>.\<close>

fun registered :: "'w extern \<Rightarrow> 'w operation \<Rightarrow> ProjectOptionsFn list" where
  "registered X (OpWithEnv m) = [withEnv m]"
| "registered X OpWithOsEnv = [WithOsEnv X]"
| "registered X op = []"

definition registeredAll :: "'w extern \<Rightarrow> 'w operation list \<Rightarrow> ProjectOptionsFn list" where
  "registeredAll X ops = concat (map (registered X) ops)"

subsection \<open>Counting list queries\<close>

fun isListCall :: "call \<Rightarrow> bool" where
  "isListCall (ListCall lo) = True"
| "isListCall c = False"

definition listQueries :: "call list \<Rightarrow> nat" where
  "listQueries cs = length (filter isListCall cs)"

subsection \<open>A concrete engine for running the model\<close>

text \<open>
  The theorems below hold for every \<open>extern\<close>. To run the model on concrete inputs the
  collaborators are instantiated: the label names are those of docker/compose, the
  compiler applies the options in order to options with an empty environment, stops at the
  first error and otherwise yields the project \<open>proj\<close>; the compose service answers \<open>upErr\<close>
  to up and nil to down; the list query answers \<open>listed\<close>.
\<close>

fun applyOptions :: "ProjectOptionsFn list \<Rightarrow> ProjectOptions \<Rightarrow> error + ProjectOptions" where
  "applyOptions [] options = Inr options"
| "applyOptions (f # fs) options =
     (case f options of
        (options', Some err) \<Rightarrow> Inl err
      | (options', None) \<Rightarrow> applyOptions fs options')"

definition options_of :: "string list \<Rightarrow> ProjectOptions" where
  "options_of paths =
     \<lparr>Options_Name = [], ConfigPaths = paths, Environment = Map.empty, EnvFile = []\<rparr>"

definition engine :: "Project \<Rightarrow> foreign option \<Rightarrow> (foreign + Container list) \<Rightarrow> unit extern" where
  "engine proj upErr listed =
     \<lparr>ProjectLabel = ''com.docker.compose.project'',
      ServiceLabel = ''com.docker.compose.service'',
      VersionLabel = ''com.docker.compose.version'',
      WorkingDirLabel = ''com.docker.compose.project.working_dir'',
      ConfigFilesLabel = ''com.docker.compose.project.config_files'',
      OneoffLabel = ''com.docker.compose.oneoff'',
      EnvironmentFileLabel = ''com.docker.compose.project.environment_file'',
      ComposeVersion = ''2'',
      RecreateDiverged = ''diverged'',
      NewProjectOptions = (\<lambda>paths fs. applyOptions fs (options_of paths)),
      ProjectFromOptions = (\<lambda>options. Inr proj),
      WithName = (\<lambda>n options. (options\<lparr>Options_Name := n\<rparr>, None)),
      WithDefaultConfigPath = (\<lambda>options. (options, None)),
      WithOsEnv = (\<lambda>options. (options, None)),
      ServiceNames = (\<lambda>p. sort (map Name (Project_Services p))),
      composeService_Up = (\<lambda>p uo w. (upErr, w)),
      composeService_Down = (\<lambda>n dopts w. (None, w)),
      ContainerList = (\<lambda>lo w. (listed, w))\<rparr>"

definition bare_service :: "string \<Rightarrow> ServiceConfig" where
  "bare_service n = \<lparr>Name = n, CustomLabels = Map.empty\<rparr>"

definition proj_of :: "string list \<Rightarrow> Project" where
  "proj_of names =
     \<lparr>Project_Name = ''stack'', WorkingDir = ''/w'', ComposeFiles = [''a.yaml'', ''b.yaml''],
      Project_Services = map bare_service names\<rparr>"

definition fresh :: "unit system" where
  "fresh =
     \<lparr>ctl = \<lparr>name = ''stack'', configs = [''a.yaml'', ''b.yaml''], waitStrategies = [],
             containers = Map.empty, projectOptions = [], project = None\<rparr>,
      world = (), calls = []\<rparr>"

text \<open>Engines, options and strategies used in the examples.\<close>

definition engine_empty :: "unit extern" where
  "engine_empty = engine (proj_of [''web'']) None (Inr [])"

definition engine_two :: "unit extern" where
  "engine_two =
     engine (proj_of [''web'']) None (Inr [\<lparr>Container_ID = ''c1''\<rparr>, \<lparr>Container_ID = ''c2''\<rparr>])"

definition engine_abcd :: "unit extern" where
  "engine_abcd = engine (proj_of [''A'', ''B'', ''C'', ''D'']) None (Inr [])"

definition engine_a :: "unit extern" where
  "engine_a = engine (proj_of [''A'']) None (Inr [])"

definition engine_down :: "unit extern" where
  "engine_down = engine (proj_of [''A'', ''B'']) (Some ''engine unreachable'') (Inr [])"

definition engine_envfile :: "unit extern" where
  "engine_envfile =
     (engine (proj_of [''A'', ''B'']) None (Inr []))
       \<lparr>WithDefaultConfigPath := (\<lambda>options. (options\<lparr>EnvFile := ''.env''\<rparr>, None))\<rparr>"

definition options_envfile :: ProjectOptions where
  "options_envfile =
     \<lparr>Options_Name = ''stack'', ConfigPaths = [''a.yaml'', ''b.yaml''],
      Environment = Map.empty, EnvFile = ''.env''\<rparr>"

definition ready :: "unit Strategy" where
  "ready target w = (None, w)"

text \<open>What \<open>engine (proj_of names)\<close> compiles for \<open>fresh\<close>, and the options \<^verbatim>\<open>Up\<close> then sends
  for the requested names.\<close>

definition compiled_of :: "string list \<Rightarrow> Project" where
  "compiled_of names = proj_of names\<lparr>Project_Services :=
      map (\<lambda>n. \<lparr>Name = n, CustomLabels =
        [''com.docker.compose.project'' \<mapsto> ''stack'',
         ''com.docker.compose.service'' \<mapsto> n,
         ''com.docker.compose.version'' \<mapsto> ''2'',
         ''com.docker.compose.project.working_dir'' \<mapsto> ''/w'',
         ''com.docker.compose.project.config_files'' \<mapsto> ''a.yaml,b.yaml'',
         ''com.docker.compose.oneoff'' \<mapsto> ''False'']\<rparr>) names\<rparr>"

definition request_of :: "string list \<Rightarrow> Project \<Rightarrow> UpOptions" where
  "request_of names proj =
     \<lparr>Create = \<lparr>Create_Services = names, Create_Recreate = ''diverged'',
                 Create_RecreateDependencies = ''diverged'', Create_RemoveOrphans = False\<rparr>,
      Start = \<lparr>Start_Project = Some proj, Start_Wait = False\<rparr>\<rparr>"

text \<open>An engine whose list query answers by its filters: two containers for the label pair
  of stack \<open>stack\<close> and service \<open>web\<close>, none for any other query.\<close>

definition engine_by_label :: "unit extern" where
  "engine_by_label =
     (engine (proj_of [''web'']) None (Inr []))
       \<lparr>ContainerList := (\<lambda>lo w.
          (if lo = \<lparr>All_containers = True,
                    Filters = [(''label'', ''com.docker.compose.project=stack''),
                               (''label'', ''com.docker.compose.service=web'')]\<rparr>
           then Inr [\<lparr>Container_ID = ''c1''\<rparr>, \<lparr>Container_ID = ''c2''\<rparr>]
           else Inr [], w))\<rparr>"

text \<open>The controller \<open>fresh\<close> after six configuration calls, two of which inject \<open>X\<close>.\<close>

definition injected :: "unit system" where
  "injected =
     performAll engine_empty
       ([OpWithOsEnv] @ OpWithEnv [(''X'', ''1'')] # [OpWithEnv [(''Y'', ''9'')], OpWithOsEnv]
          @ OpWithEnv [(''X'', ''2'')] # [OpWithEnv [(''Z'', ''0'')]])
       fresh"

section \<open>Properties\<close>

subsection \<open>The container cache\<close>

lemma lookupContainer_hit:
  "containers (ctl s) svcName = Some c \<Longrightarrow> lookupContainer X svcName s = (Inr c, s)"
  by (simp add: lookupContainer_def)

lemma lookupContainer_miss:
  "containers (ctl s) svcName = None \<Longrightarrow>
   lookupContainer X svcName s =
     (let opts = listOptions X (name (ctl s)) svcName;
          r = ContainerList X opts (world s);
          s1 = s\<lparr>world := snd r, calls := calls s @ [ListCall opts]\<rparr>
      in case fst r of
           Inl err \<Rightarrow> (Inl (Foreign err), s1)
         | Inr [] \<Rightarrow> (Inl (Errorf (''no container found for service name '' @ svcName)), s1)
         | Inr (ci # rest) \<Rightarrow>
             (Inr \<lparr>ID = Container_ID ci\<rparr>,
              s1\<lparr>ctl := (ctl s)\<lparr>containers :=
                     (containers (ctl s))(svcName \<mapsto> \<lparr>ID = Container_ID ci\<rparr>)\<rparr>\<rparr>))"
  by (simp add: lookupContainer_def Let_def split: prod.splits sum.splits list.splits)

lemma lookupContainer_success_cached:
  "fst (lookupContainer X svcName s) = Inr c \<Longrightarrow>
   containers (ctl (snd (lookupContainer X svcName s))) svcName = Some c"
  by (cases "containers (ctl s) svcName")
     (auto simp: lookupContainer_miss lookupContainer_hit Let_def split: sum.splits list.splits)

lemma lookupContainer_calls:
  "calls (snd (lookupContainer X svcName s)) =
     (if containers (ctl s) svcName = None
      then calls s @ [ListCall (listOptions X (name (ctl s)) svcName)] else calls s)"
  by (cases "containers (ctl s) svcName")
     (auto simp: lookupContainer_miss lookupContainer_hit Let_def split: sum.splits list.splits)

lemma lookupContainer_keeps_entry:
  "containers (ctl s) n = Some c \<Longrightarrow>
   containers (ctl (snd (lookupContainer X svcName s))) n = Some c"
  by (cases "containers (ctl s) svcName")
     (auto simp: lookupContainer_miss lookupContainer_hit Let_def split: sum.splits list.splits)

lemma readinessTask_keeps_entry:
  "containers (ctl s) n = Some c \<Longrightarrow>
   containers (ctl (snd (readinessTask X svcName strategy s))) n = Some c"
  using lookupContainer_keeps_entry [of s n c X svcName]
  by (auto simp: readinessTask_def Let_def split: prod.splits sum.splits)

lemma readinessFanOut_keeps_entry:
  "containers (ctl s) n = Some c \<Longrightarrow>
   containers (ctl (snd (readinessFanOut X ws s))) n = Some c"
proof (induction ws arbitrary: s)
  case Nil
  then show ?case by simp
next
  case (Cons a ws)
  obtain svcName strategy where a: "a = (svcName, strategy)" by (cases a)
  have "containers (ctl (snd (readinessTask X svcName strategy s))) n = Some c"
    using Cons.prems by (rule readinessTask_keeps_entry)
  from Cons.IH [OF this] show ?case
    by (simp add: a Let_def case_prod_beta)
qed

lemma Up_keeps_entry:
  "containers (ctl s) n = Some c \<Longrightarrow> containers (ctl (snd (Up X opts s))) n = Some c"
  using readinessFanOut_keeps_entry [of _ n c X]
  by (auto simp: Up_def Let_def split: sum.splits prod.splits option.splits)

lemma Down_ctl: "ctl (snd (Down X opts s)) = ctl s"
  by (simp add: Down_def Let_def split: prod.splits)

lemma perform_keeps_entry:
  "containers (ctl s) n = Some c \<Longrightarrow> containers (ctl (perform X op s)) n = Some c"
  by (cases op)
     (simp_all add: Up_keeps_entry Down_ctl ServiceContainer_def lookupContainer_keeps_entry
        WaitForService_def WithEnv_def WithOsEnv_ctl_def)

lemma performAll_keeps_entry:
  "containers (ctl s) n = Some c \<Longrightarrow> containers (ctl (performAll X ops s)) n = Some c"
  unfolding performAll_def
  by (induction ops arbitrary: s) (simp_all add: perform_keeps_entry)

text \<open>
  Claim C6, as the code has it. Two lookups in a row issue two list queries when the first
  one fails, so the bound of one query holds for a first lookup that succeeds: then the handle is in the cache, the
  second lookup returns it and leaves the whole state as it is (no call is issued), the
  two lookups together issue at most one list query, and after any further sequence of
  operations on the controller a lookup of the name still returns that handle without
  a call.
\<close>

theorem ServiceContainer_cache_reuse:
  assumes "fst (ServiceContainer X svcName s) = Inr c"
      and "s1 = snd (ServiceContainer X svcName s)"
  shows "ServiceContainer X svcName s1 = (Inr c, s1)
       \<and> listQueries (calls (snd (ServiceContainer X svcName s1))) \<le> listQueries (calls s) + 1
       \<and> ServiceContainer X svcName (performAll X ops s1) = (Inr c, performAll X ops s1)"
proof -
  have cached: "containers (ctl s1) svcName = Some c"
    using assms by (simp add: ServiceContainer_def lookupContainer_success_cached)
  then have second: "ServiceContainer X svcName s1 = (Inr c, s1)"
    by (simp add: ServiceContainer_def lookupContainer_hit)
  have "listQueries (calls s1) \<le> listQueries (calls s) + 1"
    using assms(2) by (simp add: ServiceContainer_def lookupContainer_calls listQueries_def)
  moreover have "ServiceContainer X svcName (performAll X ops s1) = (Inr c, performAll X ops s1)"
    using performAll_keeps_entry [OF cached]
    by (simp add: ServiceContainer_def lookupContainer_hit)
  ultimately show ?thesis using second by simp
qed

theorem ServiceContainer_cache_reuse_witness:
  "fst (ServiceContainer engine_two ''web'' fresh) = Inr \<lparr>ID = ''c1''\<rparr>
   \<and> ServiceContainer engine_two ''web'' (snd (ServiceContainer engine_two ''web'' fresh))
       = (Inr \<lparr>ID = ''c1''\<rparr>, snd (ServiceContainer engine_two ''web'' fresh))
   \<and> listQueries (calls (snd (ServiceContainer engine_two ''web''
         (snd (ServiceContainer engine_two ''web'' fresh))))) \<le> listQueries (calls fresh) + 1
   \<and> ServiceContainer engine_two ''web''
         (performAll engine_two [OpDown [], OpServiceContainer ''db'']
            (snd (ServiceContainer engine_two ''web'' fresh)))
       = (Inr \<lparr>ID = ''c1''\<rparr>,
          performAll engine_two [OpDown [], OpServiceContainer ''db'']
            (snd (ServiceContainer engine_two ''web'' fresh)))"
proof -
  have h: "fst (ServiceContainer engine_two ''web'' fresh) = Inr \<lparr>ID = ''c1''\<rparr>"
    by (simp add: ServiceContainer_def lookupContainer_def fresh_def engine_two_def engine_def Let_def)
  from ServiceContainer_cache_reuse [OF h refl, of "[OpDown [], OpServiceContainer ''db'']"] h
  show ?thesis by blast
qed

text \<open>
  Claim C6 as stated fails: when the engine lists no container for the service, the first
  lookup fails, nothing is cached, and the second lookup queries again (two list queries).
\<close>

theorem ServiceContainer_failed_lookup_queries_twice:
  "listQueries (calls (snd (ServiceContainer engine_empty ''web''
      (snd (ServiceContainer engine_empty ''web'' fresh))))) = 2"
  by (simp add: ServiceContainer_def lookupContainer_def fresh_def engine_empty_def engine_def
      listQueries_def Let_def)

text \<open>
  Claim C7. \<^verbatim>\<open>ServiceContainer\<close> returns the error "no container found for service name ..."
  exactly when the name is not cached and the runtime, asked for all containers that carry
  the two labels \<^verbatim>\<open>ProjectLabel=<stack name>\<close> and \<^verbatim>\<open>ServiceLabel=<service name>\<close>, answers
  with no container; when it answers with one container or more, the handle is built from
  the first one. On a cache miss that query, with exactly these options, is the one call
  issued.
\<close>

theorem ServiceContainer_not_found_iff:
  "(fst (ServiceContainer X svcName s)
      = Inl (Errorf (''no container found for service name '' @ svcName))
    \<longleftrightarrow> containers (ctl s) svcName = None
        \<and> fst (ContainerList X
                 \<lparr>All_containers = True,
                  Filters = [(''label'', ProjectLabel X @ ''='' @ name (ctl s)),
                             (''label'', ServiceLabel X @ ''='' @ svcName)]\<rparr>
                 (world s)) = Inr [])
   \<and> (containers (ctl s) svcName = None
        \<and> fst (ContainerList X
                 \<lparr>All_containers = True,
                  Filters = [(''label'', ProjectLabel X @ ''='' @ name (ctl s)),
                             (''label'', ServiceLabel X @ ''='' @ svcName)]\<rparr>
                 (world s)) = Inr (c # cs)
      \<longrightarrow> fst (ServiceContainer X svcName s) = Inr \<lparr>ID = Container_ID c\<rparr>)
   \<and> (containers (ctl s) svcName = None
      \<longrightarrow> calls (snd (ServiceContainer X svcName s))
            = calls s @ [ListCall \<lparr>All_containers = True,
                                  Filters = [(''label'', ProjectLabel X @ ''='' @ name (ctl s)),
                                             (''label'', ServiceLabel X @ ''='' @ svcName)]\<rparr>])"
proof (cases "containers (ctl s) svcName")
  case None
  then show ?thesis
    unfolding ServiceContainer_def
    by (simp add: lookupContainer_miss listOptions_def Let_def split: sum.splits list.splits)
next
  case (Some a)
  then show ?thesis
    unfolding ServiceContainer_def by (simp add: lookupContainer_hit)
qed

theorem ServiceContainer_not_found_iff_witness:
  "containers (ctl fresh) ''web'' = None
   \<and> fst (ContainerList engine_by_label
            \<lparr>All_containers = True,
             Filters = [(''label'', ProjectLabel engine_by_label @ ''='' @ name (ctl fresh)),
                        (''label'', ServiceLabel engine_by_label @ ''='' @ ''web'')]\<rparr>
            (world fresh))
       = Inr [\<lparr>Container_ID = ''c1''\<rparr>, \<lparr>Container_ID = ''c2''\<rparr>]
   \<and> fst (ServiceContainer engine_by_label ''web'' fresh) = Inr \<lparr>ID = ''c1''\<rparr>
   \<and> calls (snd (ServiceContainer engine_by_label ''web'' fresh))
       = [ListCall \<lparr>All_containers = True,
                    Filters = [(''label'', ''com.docker.compose.project=stack''),
                               (''label'', ''com.docker.compose.service=web'')]\<rparr>]
   \<and> containers (ctl fresh) ''db'' = None
   \<and> fst (ContainerList engine_by_label
            \<lparr>All_containers = True,
             Filters = [(''label'', ProjectLabel engine_by_label @ ''='' @ name (ctl fresh)),
                        (''label'', ServiceLabel engine_by_label @ ''='' @ ''db'')]\<rparr>
            (world fresh))
       = Inr []
   \<and> fst (ServiceContainer engine_by_label ''db'' fresh)
       = Inl (Errorf ''no container found for service name db'')"
proof -
  have l: "ProjectLabel engine_by_label = ''com.docker.compose.project''"
          "ServiceLabel engine_by_label = ''com.docker.compose.service''"
          "name (ctl fresh) = ''stack''" "calls fresh = []"
    by (simp_all add: engine_by_label_def engine_def fresh_def)
  have h1: "containers (ctl fresh) ''web'' = None" "containers (ctl fresh) ''db'' = None"
    by (simp_all add: fresh_def)
  have h2: "fst (ContainerList engine_by_label
            \<lparr>All_containers = True,
             Filters = [(''label'', ProjectLabel engine_by_label @ ''='' @ name (ctl fresh)),
                        (''label'', ServiceLabel engine_by_label @ ''='' @ ''web'')]\<rparr>
            (world fresh))
       = Inr [\<lparr>Container_ID = ''c1''\<rparr>, \<lparr>Container_ID = ''c2''\<rparr>]"
    unfolding l by (simp add: engine_by_label_def engine_def)
  have h3: "fst (ContainerList engine_by_label
            \<lparr>All_containers = True,
             Filters = [(''label'', ProjectLabel engine_by_label @ ''='' @ name (ctl fresh)),
                        (''label'', ServiceLabel engine_by_label @ ''='' @ ''db'')]\<rparr>
            (world fresh))
       = Inr []"
    unfolding l by (simp add: engine_by_label_def engine_def)
  from ServiceContainer_not_found_iff [of engine_by_label "''web''" fresh "\<lparr>Container_ID = ''c1''\<rparr>" "[\<lparr>Container_ID = ''c2''\<rparr>]"]
       h1 h2
  have a: "fst (ServiceContainer engine_by_label ''web'' fresh) = Inr \<lparr>ID = ''c1''\<rparr>"
    and b: "calls (snd (ServiceContainer engine_by_label ''web'' fresh))
       = calls fresh @ [ListCall \<lparr>All_containers = True,
             Filters = [(''label'', ProjectLabel engine_by_label @ ''='' @ name (ctl fresh)),
                        (''label'', ServiceLabel engine_by_label @ ''='' @ ''web'')]\<rparr>]"
    by simp_all
  from ServiceContainer_not_found_iff [of engine_by_label "''db''" fresh undefined undefined] h1 h3
  have c: "fst (ServiceContainer engine_by_label ''db'' fresh)
       = Inl (Errorf (''no container found for service name '' @ ''db''))"
    by blast
  from b have b': "calls (snd (ServiceContainer engine_by_label ''web'' fresh))
       = [ListCall \<lparr>All_containers = True,
                    Filters = [(''label'', ''com.docker.compose.project=stack''),
                               (''label'', ''com.docker.compose.service=web'')]\<rparr>]"
    unfolding l by simp
  from c have c': "fst (ServiceContainer engine_by_label ''db'' fresh)
       = Inl (Errorf ''no container found for service name db'')" by simp
  from h1 h2 h3 a b' c' show ?thesis by blast
qed

text \<open>
  Claim C10. When \<^verbatim>\<open>lookupContainer\<close> returns an error (the list query failed or listed
  nothing) the cache is what it was and has no entry for the name, and the next lookup of
  the name issues a list query again. The cache changes only when the lookup succeeds,
  and then by the one entry for the name.
\<close>

theorem lookupContainer_failure_keeps_cache:
  assumes "s' = snd (lookupContainer X svcName s)"
  shows "(fst (lookupContainer X svcName s) = Inl e \<longrightarrow>
            containers (ctl s') = containers (ctl s)
          \<and> containers (ctl s') svcName = None
          \<and> calls (snd (lookupContainer X svcName s')) =
              calls s' @ [ListCall (listOptions X (name (ctl s')) svcName)])
       \<and> (containers (ctl s') \<noteq> containers (ctl s) \<longrightarrow>
            (\<exists>c. fst (lookupContainer X svcName s) = Inr c
               \<and> containers (ctl s') = (containers (ctl s))(svcName \<mapsto> c)))"
proof (cases "containers (ctl s) svcName")
  case None
  then show ?thesis
    unfolding assms
    by (auto simp: lookupContainer_miss lookupContainer_calls Let_def split: sum.splits list.splits)
next
  case (Some a)
  then show ?thesis
    unfolding assms by (simp add: lookupContainer_hit)
qed

theorem lookupContainer_failure_keeps_cache_witness:
  "fst (lookupContainer engine_empty ''web'' fresh)
     = Inl (Errorf ''no container found for service name web'')
   \<and> containers (ctl (snd (lookupContainer engine_empty ''web'' fresh))) = containers (ctl fresh)
   \<and> calls (snd (lookupContainer engine_empty ''web'' (snd (lookupContainer engine_empty ''web'' fresh))))
       = calls (snd (lookupContainer engine_empty ''web'' fresh))
         @ [ListCall (listOptions engine_empty
              (name (ctl (snd (lookupContainer engine_empty ''web'' fresh)))) ''web'')]
   \<and> containers (ctl (snd (lookupContainer engine_two ''web'' fresh))) \<noteq> containers (ctl fresh)
   \<and> (\<exists>c. fst (lookupContainer engine_two ''web'' fresh) = Inr c
         \<and> containers (ctl (snd (lookupContainer engine_two ''web'' fresh)))
             = (containers (ctl fresh))(''web'' \<mapsto> c))"
proof -
  have h1: "fst (lookupContainer engine_empty ''web'' fresh)
     = Inl (Errorf ''no container found for service name web'')"
    by (simp add: lookupContainer_def fresh_def engine_empty_def engine_def Let_def)
  have "containers (ctl (snd (lookupContainer engine_two ''web'' fresh))) ''web''
          \<noteq> containers (ctl fresh) ''web''"
    by (simp add: lookupContainer_def fresh_def engine_two_def engine_def Let_def)
  then have h2: "containers (ctl (snd (lookupContainer engine_two ''web'' fresh)))
          \<noteq> containers (ctl fresh)"
    by metis
  from lookupContainer_failure_keeps_cache
         [OF refl, of engine_empty "''web''" fresh "Errorf ''no container found for service name web''"]
       lookupContainer_failure_keeps_cache [OF refl, of engine_two "''web''" fresh undefined]
       h1 h2
  show ?thesis by simp
qed

subsection \<open>\<^verbatim>\<open>Down\<close>\<close>

lemma fold_applyToStackDown_Project:
  "Down_Project (fold applyToStackDown opts d) = Down_Project d"
proof (induction opts arbitrary: d)
  case Nil
  then show ?case by simp
next
  case (Cons a opts)
  then show ?case by (cases a) simp_all
qed

text \<open>
  Claim C1, as the code has it. \<^verbatim>\<open>Down\<close> has no check of \<^verbatim>\<open>d.project\<close>: on a controller whose
  project is nil (\<^verbatim>\<open>Up\<close> was never called) it issues exactly one down call to the compose
  service, for the controller's stack name and with a nil project in the options, and
  returns what the service returns, error or not; the controller is unchanged.
\<close>

theorem Down_before_Up_calls_gateway:
  assumes "project (ctl s) = None"
  shows "\<exists>options.
           Down_Project options = None
         \<and> calls (snd (Down X opts s)) = calls s @ [DownCall (name (ctl s)) options]
         \<and> fst (Down X opts s) =
             map_option Foreign (fst (composeService_Down X (name (ctl s)) options (world s)))
         \<and> ctl (snd (Down X opts s)) = ctl s"
proof -
  let ?o = "fold applyToStackDown opts
              \<lparr>Down_Project = project (ctl s), Down_RemoveOrphans = False, Images = []\<rparr>"
  have "Down_Project ?o = None"
    using assms by (simp add: fold_applyToStackDown_Project)
  moreover have "calls (snd (Down X opts s)) = calls s @ [DownCall (name (ctl s)) ?o]"
    by (simp add: Down_def Let_def split: prod.splits)
  moreover have "fst (Down X opts s) =
      map_option Foreign (fst (composeService_Down X (name (ctl s)) ?o (world s)))"
    by (simp add: Down_def Let_def split: prod.splits)
  ultimately show ?thesis using Down_ctl by blast
qed

theorem Down_before_Up_calls_gateway_witness:
  "project (ctl fresh) = None
   \<and> (\<exists>options.
           Down_Project options = None
         \<and> calls (snd (Down engine_empty [DownRemoveOrphans True] fresh))
             = calls fresh @ [DownCall (name (ctl fresh)) options]
         \<and> fst (Down engine_empty [DownRemoveOrphans True] fresh) =
             map_option Foreign
               (fst (composeService_Down engine_empty (name (ctl fresh)) options (world fresh)))
         \<and> ctl (snd (Down engine_empty [DownRemoveOrphans True] fresh)) = ctl fresh)"
proof -
  have h: "project (ctl fresh) = None" by (simp add: fresh_def)
  from Down_before_Up_calls_gateway [OF h, of engine_empty "[DownRemoveOrphans True]"] h
  show ?thesis by simp
qed

text \<open>
  Claim C1 as stated fails: on the never-started controller \<open>fresh\<close>, with a compose
  service that accepts the call, \<^verbatim>\<open>Down\<close> returns no error and has issued a down call.
\<close>

theorem Down_before_Up_no_misuse_error:
  "project (ctl fresh) = None
   \<and> fst (Down engine_empty [] fresh) = None
   \<and> calls (snd (Down engine_empty [] fresh)) =
       [DownCall ''stack'' \<lparr>Down_Project = None, Down_RemoveOrphans = False, Images = []\<rparr>]"
  by (simp add: Down_def fresh_def engine_empty_def engine_def)

subsection \<open>Environment injection\<close>

lemma withEnv_keeps:
  "Environment options k = Some v \<Longrightarrow> Environment (fst (withEnv env options)) k = Some v"
proof (induction env arbitrary: options)
  case Nil
  then show ?case by simp
next
  case (Cons a env)
  obtain k' v' where a: "a = (k', v')" by (cases a)
  show ?case
  proof (cases "Environment options k' \<noteq> None")
    case True
    with Cons.prems show ?thesis by (simp add: a)
  next
    case False
    then have "k' \<noteq> k" using Cons.prems by auto
    then have "Environment (options\<lparr>Environment := (Environment options)(k' \<mapsto> v')\<rparr>) k = Some v"
      using Cons.prems by simp
    from Cons.IH [OF this] False show ?thesis by (simp add: a)
  qed
qed

lemma withEnv_duplicate_fails:
  "(k, v) \<in> set env \<Longrightarrow> Environment options k \<noteq> None \<Longrightarrow>
   \<exists>k'. snd (withEnv env options) = Some (Errorf (''environment with key '' @ k' @ '' already set''))"
proof (induction env arbitrary: options)
  case Nil
  then show ?case by simp
next
  case (Cons a env)
  obtain k' v' where a: "a = (k', v')" by (cases a)
  show ?case
  proof (cases "Environment options k' \<noteq> None")
    case True
    then show ?thesis by (auto simp: a)
  next
    case False
    with Cons.prems a have "(k, v) \<in> set env" by auto
    moreover have "Environment (options\<lparr>Environment := (Environment options)(k' \<mapsto> v')\<rparr>) k \<noteq> None"
      using Cons.prems(2) by simp
    ultimately show ?thesis
      using Cons.IH False by (simp add: a)
  qed
qed

lemma withEnv_success_sets:
  "snd (withEnv env options) = None \<Longrightarrow> distinct (map fst env) \<Longrightarrow> (k, v) \<in> set env \<Longrightarrow>
   Environment (fst (withEnv env options)) k = Some v"
proof (induction env arbitrary: options)
  case Nil
  then show ?case by simp
next
  case (Cons a env)
  obtain k' v' where a: "a = (k', v')" by (cases a)
  from Cons.prems(1) have free: "Environment options k' = None"
    by (auto simp: a split: if_splits)
  let ?o = "options\<lparr>Environment := (Environment options)(k' \<mapsto> v')\<rparr>"
  from Cons.prems(1) free have ok: "snd (withEnv env ?o) = None" by (simp add: a)
  show ?case
  proof (cases "(k, v) = (k', v')")
    case True
    have "Environment ?o k = Some v" using True by simp
    then have "Environment (fst (withEnv env ?o)) k = Some v" by (rule withEnv_keeps)
    then show ?thesis using free by (simp add: a)
  next
    case False
    with Cons.prems(3) a have "(k, v) \<in> set env" by auto
    moreover from Cons.prems(2) have "distinct (map fst env)" by simp
    ultimately have "Environment (fst (withEnv env ?o)) k = Some v"
      using Cons.IH ok by blast
    then show ?thesis using free by (simp add: a)
  qed
qed

lemma applyOptions_append_fail:
  "applyOptions pre init = Inr options \<Longrightarrow> snd (f options) = Some e \<Longrightarrow>
   applyOptions (pre @ f # rest) init = Inl e"
proof (induction pre arbitrary: init)
  case Nil
  then show ?case by (cases "f options") simp
next
  case (Cons g pre)
  then show ?case by (cases "g init") (auto split: option.splits)
qed

lemma readinessTask_options:
  "projectOptions (ctl (snd (readinessTask X svcName strategy s))) = projectOptions (ctl s)"
  by (auto simp: readinessTask_def lookupContainer_def Let_def
      split: prod.splits sum.splits option.splits list.splits)

lemma readinessFanOut_options:
  "projectOptions (ctl (snd (readinessFanOut X ws s))) = projectOptions (ctl s)"
proof (induction ws arbitrary: s)
  case Nil
  then show ?case by simp
next
  case (Cons a ws)
  obtain svcName strategy where a: "a = (svcName, strategy)" by (cases a)
  show ?case
    by (simp add: a Let_def case_prod_beta Cons.IH readinessTask_options)
qed

lemma Up_options: "projectOptions (ctl (snd (Up X opts s))) = projectOptions (ctl s)"
  by (simp add: Up_def Let_def case_prod_beta readinessFanOut_options
      split: sum.splits option.splits)

lemma lookupContainer_options:
  "projectOptions (ctl (snd (lookupContainer X svcName s))) = projectOptions (ctl s)"
  by (auto simp: lookupContainer_def Let_def
      split: prod.splits sum.splits option.splits list.splits)

lemma perform_options:
  "projectOptions (ctl (perform X op s)) = projectOptions (ctl s) @ registered X op"
  by (cases op)
     (simp_all add: Up_options Down_ctl ServiceContainer_def lookupContainer_options
        WaitForService_def WithEnv_def WithOsEnv_ctl_def)

lemma performAll_options:
  "projectOptions (ctl (performAll X ops s)) = projectOptions (ctl s) @ registeredAll X ops"
  unfolding performAll_def registeredAll_def
  by (induction ops arbitrary: s) (simp_all add: perform_options)

lemma registeredAll_append:
  "registeredAll X (xs @ ys) = registeredAll X xs @ registeredAll X ys"
  by (simp add: registeredAll_def)

lemma registeredAll_Cons:
  "registeredAll X (op # ops) = registered X op @ registeredAll X ops"
  by (simp add: registeredAll_def)

lemma withEnv_success_set:
  "snd (withEnv env options) = None \<Longrightarrow> (k, v) \<in> set env \<Longrightarrow>
   Environment (fst (withEnv env options)) k \<noteq> None"
proof (induction env arbitrary: options)
  case Nil
  then show ?case by simp
next
  case (Cons a env)
  obtain k' v' where a: "a = (k', v')" by (cases a)
  from Cons.prems(1) have free: "Environment options k' = None"
    by (auto simp: a split: if_splits)
  let ?o = "options\<lparr>Environment := (Environment options)(k' \<mapsto> v')\<rparr>"
  from Cons.prems(1) free have ok: "snd (withEnv env ?o) = None" by (simp add: a)
  show ?case
  proof (cases "k = k'")
    case True
    have "Environment ?o k = Some v'" using True by simp
    then have "Environment (fst (withEnv env ?o)) k = Some v'" by (rule withEnv_keeps)
    then show ?thesis using free by (simp add: a)
  next
    case False
    with Cons.prems(2) a have "(k, v) \<in> set env" by auto
    then have "Environment (fst (withEnv env ?o)) k \<noteq> None"
      using Cons.IH ok by blast
    then show ?thesis using free by (simp add: a)
  qed
qed

lemma applyOptions_append:
  "applyOptions (fs @ gs) options =
     (case applyOptions fs options of Inl e \<Rightarrow> Inl e | Inr options' \<Rightarrow> applyOptions gs options')"
proof (induction fs arbitrary: options)
  case Nil
  then show ?case by simp
next
  case (Cons f fs)
  then show ?case by (cases "f options") (auto split: option.splits)
qed

lemma applyOptions_keeps:
  assumes "\<forall>f \<in> set fs. \<forall>options k' v.
             Environment options k' = Some v \<longrightarrow> Environment (fst (f options)) k' = Some v"
      and "applyOptions fs options = Inr options'"
      and "Environment options k = Some v"
  shows "Environment options' k = Some v"
  using assms
proof (induction fs arbitrary: options)
  case Nil
  then show ?case by simp
next
  case (Cons f fs)
  obtain o1 r where f: "f options = (o1, r)" by (cases "f options")
  with Cons.prems(2) have r: "r = None" and rest: "applyOptions fs o1 = Inr options'"
    by (auto split: option.splits)
  have "Environment (fst (f options)) k = Some v"
    using Cons.prems(1,3) by auto
  then have "Environment o1 k = Some v" by (simp add: f)
  moreover have "\<forall>f \<in> set fs. \<forall>options k' v.
             Environment options k' = Some v \<longrightarrow> Environment (fst (f options)) k' = Some v"
    using Cons.prems(1) by auto
  ultimately show ?case using Cons.IH rest by blast
qed

lemma registeredAll_keeps:
  assumes "OpWithOsEnv \<in> set ops \<longrightarrow>
           (\<forall>options k' v. Environment options k' = Some v \<longrightarrow>
              Environment (fst (WithOsEnv X options)) k' = Some v)"
  shows "\<forall>f \<in> set (registeredAll X ops). \<forall>options k' v.
           Environment options k' = Some v \<longrightarrow> Environment (fst (f options)) k' = Some v"
proof
  fix f assume "f \<in> set (registeredAll X ops)"
  then obtain op where op: "op \<in> set ops" "f \<in> set (registered X op)"
    by (auto simp: registeredAll_def)
  show "\<forall>options k' v. Environment options k' = Some v \<longrightarrow> Environment (fst (f options)) k' = Some v"
  proof (cases op)
    case (OpWithEnv m)
    with op(2) show ?thesis by (simp add: withEnv_keeps)
  next
    case OpWithOsEnv
    with op assms show ?thesis by simp
  qed (use op(2) in simp_all)
qed

text \<open>Two injections with a common key in an option list: applying the list fails.\<close>

lemma applyOptions_duplicate:
  assumes k1: "(k, v1) \<in> set m1" and k2: "(k, v2) \<in> set m2"
      and keep: "\<forall>f \<in> set mid. \<forall>options k' v.
             Environment options k' = Some v \<longrightarrow> Environment (fst (f options)) k' = Some v"
  shows "\<exists>e. applyOptions (pre @ withEnv m1 # mid @ withEnv m2 # post) init = Inl e"
proof (cases "applyOptions pre init")
  case (Inl e)
  then show ?thesis by (simp add: applyOptions_append)
next
  case (Inr o0)
  show ?thesis
  proof (cases "snd (withEnv m1 o0)")
    case (Some e)
    then have "applyOptions (pre @ withEnv m1 # (mid @ withEnv m2 # post)) init = Inl e"
      using Inr by (rule applyOptions_append_fail [where f = "withEnv m1" and options = o0, rotated])
    then show ?thesis by blast
  next
    case None
    define o1 where "o1 = fst (withEnv m1 o0)"
    have w1: "withEnv m1 o0 = (o1, None)" using None by (simp add: o1_def prod_eq_iff)
    have set1: "Environment o1 k \<noteq> None"
      unfolding o1_def using None k1 by (rule withEnv_success_set)
    then obtain v where v: "Environment o1 k = Some v" by blast
    show ?thesis
    proof (cases "applyOptions mid o1")
      case (Inl e)
      then show ?thesis using Inr w1 by (simp add: applyOptions_append)
    next
      case o2: (Inr o2)
      have "Environment o2 k = Some v" using keep o2 v by (rule applyOptions_keeps)
      then have "Environment o2 k \<noteq> None" by simp
      with k2 obtain k' where
        "snd (withEnv m2 o2) = Some (Errorf (''environment with key '' @ k' @ '' already set''))"
        using withEnv_duplicate_fails by blast
      then show ?thesis
        using Inr w1 o2 by (cases "withEnv m2 o2") (simp add: applyOptions_append)
    qed
  qed
qed

lemma applyOptions_duplicate_clean:
  assumes k1: "(k, v1) \<in> set m1" and k2: "(k, v2) \<in> set m2" and d1: "distinct (map fst m1)"
      and keep: "\<forall>f \<in> set mid. \<forall>options k' v.
             Environment options k' = Some v \<longrightarrow> Environment (fst (f options)) k' = Some v"
      and pre: "applyOptions pre init = Inr o0"
      and w1: "withEnv m1 o0 = (o1, None)"
      and mid: "applyOptions mid o1 = Inr o2"
  shows "Environment o1 k = Some v1 \<and> Environment o2 k = Some v1
       \<and> Environment (fst (withEnv m2 o2)) k = Some v1
       \<and> (\<exists>k'. snd (withEnv m2 o2) = Some (Errorf (''environment with key '' @ k' @ '' already set''))
              \<and> applyOptions (pre @ withEnv m1 # mid @ withEnv m2 # post) init
                  = Inl (Errorf (''environment with key '' @ k' @ '' already set'')))"
proof -
  have e1: "Environment o1 k = Some v1"
    using withEnv_success_sets [of m1 o0 k v1] d1 k1 w1 by simp
  have e2: "Environment o2 k = Some v1" using keep mid e1 by (rule applyOptions_keeps)
  then have e3: "Environment (fst (withEnv m2 o2)) k = Some v1" by (rule withEnv_keeps)
  from e2 have "Environment o2 k \<noteq> None" by simp
  with k2 obtain k' where
    dup: "snd (withEnv m2 o2) = Some (Errorf (''environment with key '' @ k' @ '' already set''))"
    using withEnv_duplicate_fails by blast
  then have "applyOptions (pre @ withEnv m1 # mid @ withEnv m2 # post) init
                  = Inl (Errorf (''environment with key '' @ k' @ '' already set''))"
    using pre w1 mid by (cases "withEnv m2 o2") (simp add: applyOptions_append)
  with e1 e2 e3 dup show ?thesis by blast
qed

text \<open>
  Claim C2, as the code has it. \<^verbatim>\<open>WithEnv\<close> cannot fail: it has no error result and only
  appends the closure \<^verbatim>\<open>withEnv(m)\<close> to the option list. The duplicate is found when the
  closures are applied to the options, which the compiler does inside \<^verbatim>\<open>Up\<close>. Take any
  sequence of calls on a controller in which two injections \<open>m1\<close> and \<open>m2\<close> supply the
  same key \<open>k\<close>, with any calls before, between and after them, where \<^verbatim>\<open>cli.WithOsEnv\<close>,
  if it is registered between the two, keeps the variables already set (every injection
  closure does). Then both closures are in the option list in the order of the calls, and
  for a compiler that applies the options in order and stops at the first error, \<^verbatim>\<open>Up\<close>
  returns an error and issues no call to the engine. When the options up to the second
  injection apply without error, that error is the second closure's "environment with
  key ... already set", and the key keeps the value of the first injection.
\<close>

theorem WithEnv_duplicate_key_surfaces_in_Up:
  assumes "distinct (map fst m1)" and "(k, v1) \<in> set m1" and "(k, v2) \<in> set m2"
      and "NewProjectOptions X = (\<lambda>paths fs. applyOptions fs (init paths))"
      and "s = performAll X (before @ OpWithEnv m1 # between @ OpWithEnv m2 # after) s0"
      and "OpWithOsEnv \<in> set between \<longrightarrow>
             (\<forall>options k' v. Environment options k' = Some v \<longrightarrow>
                Environment (fst (WithOsEnv X options)) k' = Some v)"
  shows "WithEnv m2 (WithEnv m1 s0)
           = s0\<lparr>ctl := (ctl s0)\<lparr>projectOptions := projectOptions (ctl s0) @ [withEnv m1, withEnv m2]\<rparr>\<rparr>
       \<and> projectOptions (ctl s)
           = projectOptions (ctl s0) @ registeredAll X before
               @ withEnv m1 # registeredAll X between @ withEnv m2 # registeredAll X after
       \<and> (\<exists>e. fst (Up X opts s) = Some e)
       \<and> calls (snd (Up X opts s)) = calls s
       \<and> (\<forall>o0 o1 o2.
              applyOptions (projectOptions (ctl s0) @ registeredAll X before) (init (configs (ctl s)))
                = Inr o0
            \<and> withEnv m1 o0 = (o1, None)
            \<and> applyOptions (registeredAll X between) o1 = Inr o2
            \<longrightarrow> Environment o1 k = Some v1
              \<and> Environment o2 k = Some v1
              \<and> Environment (fst (withEnv m2 o2)) k = Some v1
              \<and> (\<exists>k'. snd (withEnv m2 o2)
                         = Some (Errorf (''environment with key '' @ k' @ '' already set''))
                     \<and> fst (Up X opts s)
                         = Some (Errorf (''environment with key '' @ k' @ '' already set''))))"
proof -
  let ?pre = "projectOptions (ctl s0) @ registeredAll X before"
  let ?mid = "registeredAll X between"
  let ?post = "registeredAll X after @ [WithName X (name (ctl s)), WithDefaultConfigPath X]"
  let ?init = "init (configs (ctl s))"
  have mut: "WithEnv m2 (WithEnv m1 s0)
           = s0\<lparr>ctl := (ctl s0)\<lparr>projectOptions := projectOptions (ctl s0) @ [withEnv m1, withEnv m2]\<rparr>\<rparr>"
    by (simp add: WithEnv_def)
  have po: "projectOptions (ctl s)
           = projectOptions (ctl s0) @ registeredAll X before
               @ withEnv m1 # registeredAll X between @ withEnv m2 # registeredAll X after"
    by (simp add: assms(5) performAll_options registeredAll_append registeredAll_Cons)
  have keep: "\<forall>f \<in> set ?mid. \<forall>options k' v.
           Environment options k' = Some v \<longrightarrow> Environment (fst (f options)) k' = Some v"
    using assms(6) by (rule registeredAll_keeps)
  have compile: "compileProject X (ctl s) = Inl e"
    if "applyOptions (?pre @ withEnv m1 # ?mid @ withEnv m2 # ?post) ?init = Inl e" for e
    using that by (simp add: compileProject_def po assms(4))
  have up: "fst (Up X opts s) = Some e \<and> calls (snd (Up X opts s)) = calls s"
    if "applyOptions (?pre @ withEnv m1 # ?mid @ withEnv m2 # ?post) ?init = Inl e" for e
    using compile [OF that] by (simp add: Up_def)
  obtain e where e: "applyOptions (?pre @ withEnv m1 # ?mid @ withEnv m2 # ?post) ?init = Inl e"
    using applyOptions_duplicate [OF assms(2,3) keep] by blast
  have fails: "\<exists>e. fst (Up X opts s) = Some e" and nocall: "calls (snd (Up X opts s)) = calls s"
    using up [OF e] by blast+
  have clean: "Environment o1 k = Some v1
              \<and> Environment o2 k = Some v1
              \<and> Environment (fst (withEnv m2 o2)) k = Some v1
              \<and> (\<exists>k'. snd (withEnv m2 o2)
                         = Some (Errorf (''environment with key '' @ k' @ '' already set''))
                     \<and> fst (Up X opts s)
                         = Some (Errorf (''environment with key '' @ k' @ '' already set'')))"
    if "applyOptions ?pre ?init = Inr o0" "withEnv m1 o0 = (o1, None)" "applyOptions ?mid o1 = Inr o2"
    for o0 o1 o2
    using applyOptions_duplicate_clean [OF assms(2,3,1) keep that, of ?post] up by blast
  from mut po fails nocall clean show ?thesis by blast
qed

theorem WithEnv_duplicate_key_surfaces_in_Up_witness:
  "distinct (map fst [(''X'', ''1'')]) \<and> (''X'', ''1'') \<in> set [(''X'', ''1'')]
   \<and> (''X'', ''2'') \<in> set [(''X'', ''2'')]
   \<and> NewProjectOptions engine_empty = (\<lambda>paths fs. applyOptions fs (options_of paths))
   \<and> injected =
       performAll engine_empty
         ([OpWithOsEnv] @ OpWithEnv [(''X'', ''1'')] # [OpWithEnv [(''Y'', ''9'')], OpWithOsEnv]
            @ OpWithEnv [(''X'', ''2'')] # [OpWithEnv [(''Z'', ''0'')]])
         fresh
   \<and> OpWithOsEnv \<in> set [OpWithEnv [(''Y'', ''9'')], OpWithOsEnv]
   \<and> WithOsEnv engine_empty = (\<lambda>options. (options, None))
   \<and> projectOptions (ctl injected)
       = [WithOsEnv engine_empty, withEnv [(''X'', ''1'')], withEnv [(''Y'', ''9'')],
          WithOsEnv engine_empty, withEnv [(''X'', ''2'')], withEnv [(''Z'', ''0'')]]
   \<and> fst (Up engine_empty [] injected) = Some (Errorf ''environment with key X already set'')
   \<and> calls (snd (Up engine_empty [] injected)) = calls injected
   \<and> Environment (fst (withEnv [(''X'', ''2'')]
        ((options_of [''a.yaml'', ''b.yaml''])\<lparr>Environment := [''X'' \<mapsto> ''1'', ''Y'' \<mapsto> ''9'']\<rparr>)))
        ''X'' = Some ''1''"
proof -
  let ?o0 = "options_of [''a.yaml'', ''b.yaml'']"
  let ?o1 = "?o0\<lparr>Environment := [''X'' \<mapsto> ''1'']\<rparr>"
  let ?o2 = "?o0\<lparr>Environment := [''X'' \<mapsto> ''1'', ''Y'' \<mapsto> ''9'']\<rparr>"
  have h1: "distinct (map fst [(''X'', ''1'')])" by simp
  have h2: "(''X'', ''1'') \<in> set [(''X'', ''1'')]" by simp
  have h3: "(''X'', ''2'') \<in> set [(''X'', ''2'')]" by simp
  have h4: "NewProjectOptions engine_empty = (\<lambda>paths fs. applyOptions fs (options_of paths))"
    by (simp add: engine_empty_def engine_def)
  have h5: "injected =
       performAll engine_empty
         ([OpWithOsEnv] @ OpWithEnv [(''X'', ''1'')] # [OpWithEnv [(''Y'', ''9'')], OpWithOsEnv]
            @ OpWithEnv [(''X'', ''2'')] # [OpWithEnv [(''Z'', ''0'')]])
         fresh"
    by (simp add: injected_def)
  have os: "WithOsEnv engine_empty = (\<lambda>options. (options, None))"
    by (simp add: engine_empty_def engine_def)
  have h6: "\<forall>options k' v. Environment options k' = Some v \<longrightarrow>
          Environment (fst (WithOsEnv engine_empty options)) k' = Some v"
    by (simp add: os)
  have h6': "OpWithOsEnv \<in> set [OpWithEnv [(''Y'', ''9'')], OpWithOsEnv]" by simp
  have cfg: "configs (ctl injected) = [''a.yaml'', ''b.yaml'']"
    by (simp add: injected_def performAll_def WithEnv_def WithOsEnv_ctl_def fresh_def)
  have c1: "applyOptions (projectOptions (ctl fresh) @ registeredAll engine_empty [OpWithOsEnv])
              (options_of (configs (ctl injected))) = Inr ?o0"
    by (simp add: cfg registeredAll_def os fresh_def)
  have c2: "withEnv [(''X'', ''1'')] ?o0 = (?o1, None)"
    by (simp add: options_of_def)
  have c3: "applyOptions (registeredAll engine_empty [OpWithEnv [(''Y'', ''9'')], OpWithOsEnv]) ?o1
              = Inr ?o2"
    by (simp add: registeredAll_def os options_of_def)
  have up: "fst (Up engine_empty [] injected) = Some (Errorf ''environment with key X already set'')"
    by (simp add: injected_def performAll_def WithEnv_def WithOsEnv_ctl_def fresh_def
        Up_def compileProject_def engine_empty_def engine_def options_of_def)
  note t = WithEnv_duplicate_key_surfaces_in_Up [OF h1 h2 h3 h4 h5, of "[]"]
  have t': "OpWithOsEnv \<in> set [OpWithEnv [(''Y'', ''9'')], OpWithOsEnv] \<longrightarrow>
             (\<forall>options k' v. Environment options k' = Some v \<longrightarrow>
                Environment (fst (WithOsEnv engine_empty options)) k' = Some v)"
    using h6 by blast
  from t [OF t'] have
    po: "projectOptions (ctl injected)
           = projectOptions (ctl fresh) @ registeredAll engine_empty [OpWithOsEnv]
               @ withEnv [(''X'', ''1'')] # registeredAll engine_empty [OpWithEnv [(''Y'', ''9'')], OpWithOsEnv]
               @ withEnv [(''X'', ''2'')] # registeredAll engine_empty [OpWithEnv [(''Z'', ''0'')]]"
    and nocall: "calls (snd (Up engine_empty [] injected)) = calls injected"
    and clean: "\<forall>o0 o1 o2.
              applyOptions (projectOptions (ctl fresh) @ registeredAll engine_empty [OpWithOsEnv])
                 (options_of (configs (ctl injected))) = Inr o0
            \<and> withEnv [(''X'', ''1'')] o0 = (o1, None)
            \<and> applyOptions (registeredAll engine_empty [OpWithEnv [(''Y'', ''9'')], OpWithOsEnv]) o1 = Inr o2
            \<longrightarrow> Environment (fst (withEnv [(''X'', ''2'')] o2)) ''X'' = Some ''1''"
    by blast+
  from po have po': "projectOptions (ctl injected)
       = [WithOsEnv engine_empty, withEnv [(''X'', ''1'')], withEnv [(''Y'', ''9'')],
          WithOsEnv engine_empty, withEnv [(''X'', ''2'')], withEnv [(''Z'', ''0'')]]"
    by (simp add: registeredAll_def fresh_def)
  from clean c1 c2 c3 have kept: "Environment (fst (withEnv [(''X'', ''2'')] ?o2)) ''X'' = Some ''1''"
    by blast
  from h1 h2 h3 h4 h5 os h6' po' up nocall kept show ?thesis by blast
qed

text \<open>
  Claim C2 as stated fails: injecting \<open>X = 1\<close> and then \<open>X = 2\<close>, the second mutator call
  returns the controller with both closures registered, and the error comes from \<^verbatim>\<open>Up\<close>.
\<close>

theorem WithEnv_duplicate_key_not_synchronous:
  "WithEnv [(''X'', ''2'')] (WithEnv [(''X'', ''1'')] fresh)
     = fresh\<lparr>ctl := (ctl fresh)\<lparr>projectOptions := [withEnv [(''X'', ''1'')], withEnv [(''X'', ''2'')]]\<rparr>\<rparr>
   \<and> Up engine_empty [] (WithEnv [(''X'', ''2'')] (WithEnv [(''X'', ''1'')] fresh))
     = (Some (Errorf ''environment with key X already set''),
        fresh\<lparr>ctl := (ctl fresh)\<lparr>projectOptions := [withEnv [(''X'', ''1'')], withEnv [(''X'', ''2'')]]\<rparr>\<rparr>)"
  by (simp add: WithEnv_def Up_def compileProject_def fresh_def engine_empty_def engine_def
      options_of_def)

subsection \<open>Filtering the services in \<^verbatim>\<open>Up\<close>\<close>

text \<open>The binary search returns the least index at which a monotone predicate holds.\<close>

lemma Search_loop_spec:
  assumes "i \<le> j" "j \<le> n"
      and "\<forall>k l. k \<le> l \<and> l < n \<and> f k \<longrightarrow> f l"
      and "\<forall>k<i. \<not> f k"
      and "\<forall>k. j \<le> k \<and> k < n \<longrightarrow> f k"
  shows "Search_loop f i j \<le> n
       \<and> (\<forall>k<Search_loop f i j. \<not> f k)
       \<and> (\<forall>k. Search_loop f i j \<le> k \<and> k < n \<longrightarrow> f k)"
  using assms
proof (induction f i j rule: Search_loop.induct)
  case (1 f i j)
  show ?case
  proof (cases "i < j")
    case False
    with "1.prems" have "i = j" by simp
    moreover from False have "Search_loop f i j = i"
      by (subst Search_loop.simps) simp
    ultimately show ?thesis using "1.prems" by simp
  next
    case True
    define h where "h = (i + j) div 2"
    have h: "i \<le> h" "h < j" using True by (simp_all add: h_def)
    have hn: "h < n" using h "1.prems"(2) by simp
    show ?thesis
    proof (cases "f h")
      case False
      have below: "\<forall>k<h + 1. \<not> f k"
      proof (intro allI impI)
        fix k assume "k < h + 1"
        then have "k \<le> h" by simp
        with hn False "1.prems"(3) show "\<not> f k" by blast
      qed
      have step: "Search_loop f i j = Search_loop f (h + 1) j"
        using True False by (subst Search_loop.simps) (simp add: h_def Let_def)
      have hj: "h + 1 \<le> j" using h by simp
      have ih: "Search_loop f (h + 1) j \<le> n
       \<and> (\<forall>k<Search_loop f (h + 1) j. \<not> f k)
       \<and> (\<forall>k. Search_loop f (h + 1) j \<le> k \<and> k < n \<longrightarrow> f k)"
        using True h_def False hj "1.prems"(2) "1.prems"(3) below "1.prems"(5)
        by (rule "1.IH"(1))
      show ?thesis unfolding step by (rule ih)
    next
      case fh: True
      have above: "\<forall>k. h \<le> k \<and> k < n \<longrightarrow> f k"
        using fh "1.prems"(3) by blast
      have step: "Search_loop f i j = Search_loop f i h"
        using True fh by (subst Search_loop.simps) (simp add: h_def Let_def)
      have hle: "h \<le> n" using hn by simp
      have nn: "\<not> \<not> f h" using fh by simp
      have ih: "Search_loop f i h \<le> n
       \<and> (\<forall>k<Search_loop f i h. \<not> f k)
       \<and> (\<forall>k. Search_loop f i h \<le> k \<and> k < n \<longrightarrow> f k)"
        using True h_def nn h(1) hle "1.prems"(3) "1.prems"(4) above
        by (rule "1.IH"(2))
      show ?thesis unfolding step by (rule ih)
    qed
  qed
qed

lemma SearchStrings_finds:
  assumes "sorted a"
  shows "(SearchStrings a x < length a \<and> a ! SearchStrings a x = x) \<longleftrightarrow> x \<in> set a"
proof -
  let ?f = "\<lambda>i. x \<le> a ! i"
  let ?r = "SearchStrings a x"
  have mono: "\<forall>k l. k \<le> l \<and> l < length a \<and> ?f k \<longrightarrow> ?f l"
    using assms by (auto simp: sorted_iff_nth_mono intro: order_trans)
  have spec: "?r \<le> length a \<and> (\<forall>k < ?r. \<not> ?f k) \<and> (\<forall>k. ?r \<le> k \<and> k < length a \<longrightarrow> ?f k)"
    unfolding SearchStrings_def Search_def
    by (rule Search_loop_spec [OF _ _ mono]) (simp, simp, simp, linarith)
  show ?thesis
  proof
    assume "?r < length a \<and> a ! ?r = x"
    then show "x \<in> set a" by (metis nth_mem)
  next
    assume "x \<in> set a"
    then obtain k where k: "k < length a" "a ! k = x" by (auto simp: in_set_conv_nth)
    have "\<not> k < ?r"
    proof
      assume "k < ?r"
      moreover from spec have "\<forall>k < ?r. \<not> x \<le> a ! k" by (elim conjE)
      ultimately have "\<not> x \<le> a ! k" by (elim allE impE)
      then show False by (simp only: k(2) order_refl not_True_eq_False)
    qed
    then have rk: "?r \<le> k" by (rule leI)
    from rk k(1) have lt: "?r < length a" by (rule le_less_trans)
    have "a ! ?r \<le> a ! k"
      using assms rk k(1) by (rule sorted_nth_mono)
    then have "a ! ?r \<le> x" by (simp only: k(2))
    moreover from spec have "\<forall>k. ?r \<le> k \<and> k < length a \<longrightarrow> x \<le> a ! k" by (elim conjE)
    then have "x \<le> a ! ?r" using lt by (elim allE [of _ "?r"]) simp
    ultimately have "a ! ?r = x" by (rule antisym)
    with lt show "?r < length a \<and> a ! ?r = x" by (rule conjI)
  qed
qed

lemma filterLoop_filter:
  assumes "sorted names"
  shows "filterLoop names svcs acc = acc @ filter (\<lambda>s. Name s \<in> set names) svcs"
proof (induction svcs arbitrary: acc)
  case Nil
  then show ?case by simp
next
  case (Cons s svcs)
  show ?case
    using SearchStrings_finds [OF assms, of "Name s"]
    by (simp add: Cons.IH Let_def)
qed

lemma filterProject_spec:
  "filterProject requested proj =
     (if length requested \<noteq> length (Project_Services proj)
      then (sort requested,
            proj\<lparr>Project_Services := filter (\<lambda>s. Name s \<in> set requested) (Project_Services proj)\<rparr>)
      else (requested, proj))"
  by (simp add: filterProject_def Let_def filterLoop_filter)

lemma readinessTask_project:
  "project (ctl (snd (readinessTask X svcName strategy s))) = project (ctl s)"
  by (auto simp: readinessTask_def lookupContainer_def Let_def
      split: prod.splits sum.splits option.splits list.splits)

lemma readinessFanOut_project:
  "project (ctl (snd (readinessFanOut X ws s))) = project (ctl s)"
proof (induction ws arbitrary: s)
  case Nil
  then show ?case by simp
next
  case (Cons a ws)
  obtain svcName strategy where a: "a = (svcName, strategy)" by (cases a)
  show ?case
    by (simp add: a Let_def case_prod_beta Cons.IH readinessTask_project)
qed

lemma readinessTask_calls:
  "\<exists>cs. calls (snd (readinessTask X svcName strategy s)) = calls s @ cs"
  by (auto simp: readinessTask_def lookupContainer_def Let_def
      split: prod.splits sum.splits option.splits list.splits)

lemma readinessFanOut_calls:
  "\<exists>cs. calls (snd (readinessFanOut X ws s)) = calls s @ cs"
proof (induction ws arbitrary: s)
  case Nil
  then show ?case by simp
next
  case (Cons a ws)
  obtain svcName strategy where a: "a = (svcName, strategy)" by (cases a)
  obtain cs1 where c1: "calls (snd (readinessTask X svcName strategy s)) = calls s @ cs1"
    using readinessTask_calls by blast
  obtain cs2 where
    "calls (snd (readinessFanOut X ws (snd (readinessTask X svcName strategy s)))) =
       calls (snd (readinessTask X svcName strategy s)) @ cs2"
    using Cons.IH by blast
  with c1 show ?case
    by (simp add: a Let_def case_prod_beta)
qed

lemma Up_project:
  assumes "compileProject X (ctl s) = Inr compiled"
  shows "project (ctl (snd (Up X opts s))) = Some (fst (upRequest X opts compiled))"
  using assms
  by (simp add: Up_def Let_def case_prod_beta readinessFanOut_project split: option.splits)

lemma Up_calls:
  assumes "compileProject X (ctl s) = Inr compiled"
  shows "\<exists>cs. calls (snd (Up X opts s)) =
           calls s @ UpCall (fst (upRequest X opts compiled)) (snd (upRequest X opts compiled)) # cs"
proof -
  let ?s1 = "s\<lparr>ctl := (ctl s)\<lparr>project := Some (fst (upRequest X opts compiled))\<rparr>,
      world := snd (composeService_Up X (fst (upRequest X opts compiled)) (snd (upRequest X opts compiled)) (world s)),
      calls := calls s @ [UpCall (fst (upRequest X opts compiled)) (snd (upRequest X opts compiled))]\<rparr>"
  obtain cs where "calls (snd (readinessFanOut X (waitStrategies (ctl s)) ?s1)) = calls ?s1 @ cs"
    using readinessFanOut_calls by blast
  then show ?thesis
    using assms
    by (simp add: Up_def Let_def case_prod_beta split: option.splits)
qed

lemma upRequest_project:
  "fst (upRequest X opts compiled) =
     (let requested = Up_Services (upOptionsOf X opts compiled)
      in if length requested \<noteq> length (Project_Services compiled)
         then compiled\<lparr>Project_Services :=
                filter (\<lambda>s. Name s \<in> set requested) (Project_Services compiled)\<rparr>
         else compiled)"
  by (simp add: upRequest_def Let_def case_prod_beta filterProject_spec)

lemma compile_engine:
  "compileProject (engine (proj_of names) e l) (ctl fresh) = Inr (compiled_of names)"
  by (simp add: compileProject_def engine_def fresh_def proj_of_def compiled_of_def
      stampLabels_def bare_service_def options_of_def Let_def)

lemma Up_returns_nil:
  assumes "compileProject X (ctl s) = Inr compiled"
      and "fst (composeService_Up X (fst (upRequest X opts compiled))
                 (snd (upRequest X opts compiled)) (world s)) = None"
      and "waitStrategies (ctl s) = []"
  shows "fst (Up X opts s) = None"
  using assms by (simp add: Up_def Let_def case_prod_beta)

text \<open>
  Claim C3. When the number of requested names differs from the number of services of the
  compiled project, the project that \<^verbatim>\<open>Up\<close> leaves in the controller has exactly the
  services whose name is requested, each once and in the order of the compiled project
  (the result of \<open>filter\<close>, a subsequence of the compiled list).
\<close>

theorem Up_filters_requested_subset:
  assumes "compileProject X (ctl s) = Inr compiled"
      and "requested = Up_Services (upOptionsOf X opts compiled)"
      and "length requested \<noteq> length (Project_Services compiled)"
  shows "project (ctl (snd (Up X opts s))) =
           Some (compiled\<lparr>Project_Services :=
                   filter (\<lambda>svc. Name svc \<in> set requested) (Project_Services compiled)\<rparr>)
       \<and> subseq (filter (\<lambda>svc. Name svc \<in> set requested) (Project_Services compiled))
           (Project_Services compiled)"
  using assms by (simp add: Up_project upRequest_project Let_def)

theorem Up_filters_requested_subset_witness:
  "compileProject engine_abcd (ctl fresh) = Inr (compiled_of [''A'', ''B'', ''C'', ''D''])
   \<and> [''D'', ''B''] = Up_Services (upOptionsOf engine_abcd [RunServices [''D'', ''B'']] (compiled_of [''A'', ''B'', ''C'', ''D'']))
   \<and> length [''D'', ''B''] \<noteq> length (Project_Services (compiled_of [''A'', ''B'', ''C'', ''D'']))
   \<and> map_option (map Name \<circ> Project_Services) (project (ctl (snd (Up engine_abcd [RunServices [''D'', ''B'']] fresh))))
       = Some [''B'', ''D'']"
proof -
  have h1: "compileProject engine_abcd (ctl fresh) = Inr (compiled_of [''A'', ''B'', ''C'', ''D''])"
    unfolding engine_abcd_def by (rule compile_engine)
  have h2: "[''D'', ''B''] = Up_Services (upOptionsOf engine_abcd [RunServices [''D'', ''B'']] (compiled_of [''A'', ''B'', ''C'', ''D'']))"
    by (simp add: upOptionsOf_def)
  have h3: "length [''D'', ''B''] \<noteq> length (Project_Services (compiled_of [''A'', ''B'', ''C'', ''D'']))"
    by (simp add: compiled_of_def)
  from Up_filters_requested_subset [OF h1 h2 h3] h1 h2 h3 show ?thesis
    by (simp add: compiled_of_def)
qed

text \<open>
  Claim C4. A requested name that no service of the compiled project has raises no error
  and adds nothing: \<^verbatim>\<open>Up\<close> goes on to call the compose service with a project whose services
  all come from the compiled project, none of them with that name, and every compiled
  service whose name is requested is still there; if the compose service accepts the call
  and no readiness strategy is registered, \<^verbatim>\<open>Up\<close> returns nil.
\<close>

theorem Up_drops_unknown_service:
  assumes "compileProject X (ctl s) = Inr compiled"
      and "requested = Up_Services (upOptionsOf X opts compiled)"
      and "ghost \<in> set requested"
      and "ghost \<notin> Name ` set (Project_Services compiled)"
  shows "\<exists>proj uo cs.
           project (ctl (snd (Up X opts s))) = Some proj
         \<and> calls (snd (Up X opts s)) = calls s @ UpCall proj uo # cs
         \<and> set (Project_Services proj) \<subseteq> set (Project_Services compiled)
         \<and> ghost \<notin> Name ` set (Project_Services proj)
         \<and> (\<forall>svc \<in> set (Project_Services compiled).
               Name svc \<in> set requested \<longrightarrow> svc \<in> set (Project_Services proj))
         \<and> (fst (composeService_Up X proj uo (world s)) = None \<and> waitStrategies (ctl s) = []
              \<longrightarrow> fst (Up X opts s) = None)"
proof -
  let ?proj = "fst (upRequest X opts compiled)"
  have p: "project (ctl (snd (Up X opts s))) = Some ?proj"
    using assms(1) by (rule Up_project)
  obtain cs where c: "calls (snd (Up X opts s)) = calls s @ UpCall ?proj (snd (upRequest X opts compiled)) # cs"
    using Up_calls [OF assms(1)] by blast
  have sub: "set (Project_Services ?proj) \<subseteq> set (Project_Services compiled)"
    by (auto simp: upRequest_project Let_def)
  then have "ghost \<notin> Name ` set (Project_Services ?proj)"
    using assms(4) by blast
  moreover have "\<forall>svc \<in> set (Project_Services compiled).
               Name svc \<in> set requested \<longrightarrow> svc \<in> set (Project_Services ?proj)"
    by (auto simp: upRequest_project Let_def assms(2))
  moreover have "fst (composeService_Up X ?proj (snd (upRequest X opts compiled)) (world s)) = None
                   \<and> waitStrategies (ctl s) = [] \<longrightarrow> fst (Up X opts s) = None"
    using Up_returns_nil [OF assms(1)] by blast
  ultimately show ?thesis using p c sub by blast
qed

theorem Up_drops_unknown_service_witness:
  "compileProject engine_a (ctl fresh) = Inr (compiled_of [''A''])
   \<and> [''A'', ''ghost'']
       = Up_Services (upOptionsOf engine_a [RunServices [''A'', ''ghost'']] (compiled_of [''A'']))
   \<and> ''ghost'' \<in> set [''A'', ''ghost'']
   \<and> ''ghost'' \<notin> Name ` set (Project_Services (compiled_of [''A'']))
   \<and> (\<exists>proj uo cs.
           project (ctl (snd (Up engine_a [RunServices [''A'', ''ghost'']] fresh))) = Some proj
         \<and> calls (snd (Up engine_a [RunServices [''A'', ''ghost'']] fresh)) = calls fresh @ UpCall proj uo # cs
         \<and> set (Project_Services proj) \<subseteq> set (Project_Services (compiled_of [''A'']))
         \<and> ''ghost'' \<notin> Name ` set (Project_Services proj)
         \<and> (\<forall>svc \<in> set (Project_Services (compiled_of [''A''])).
               Name svc \<in> set [''A'', ''ghost''] \<longrightarrow> svc \<in> set (Project_Services proj))
         \<and> (fst (composeService_Up engine_a proj uo (world fresh)) = None
                \<and> waitStrategies (ctl fresh) = []
              \<longrightarrow> fst (Up engine_a [RunServices [''A'', ''ghost'']] fresh) = None))"
proof -
  have h1: "compileProject engine_a (ctl fresh) = Inr (compiled_of [''A''])"
    unfolding engine_a_def by (rule compile_engine)
  have h2: "[''A'', ''ghost'']
       = Up_Services (upOptionsOf engine_a [RunServices [''A'', ''ghost'']] (compiled_of [''A'']))"
    by (simp add: upOptionsOf_def)
  have h3: "''ghost'' \<in> set [''A'', ''ghost'']" by simp
  have h4: "''ghost'' \<notin> Name ` set (Project_Services (compiled_of [''A'']))"
    by (simp add: compiled_of_def)
  from Up_drops_unknown_service [OF h1 h2 h3 h4] h1 h2 h3 h4 show ?thesis by blast
qed

text \<open>
  Claim C5. When the number of requested names equals the number of services of the
  compiled project, \<^verbatim>\<open>Up\<close> does not filter: the controller's project is the compiled
  project, whatever the requested names are, and the compose service receives the compiled
  project and the requested names as they were given (not sorted).
\<close>

theorem Up_skips_filter_on_equal_length:
  assumes "compileProject X (ctl s) = Inr compiled"
      and "requested = Up_Services (upOptionsOf X opts compiled)"
      and "length requested = length (Project_Services compiled)"
  shows "project (ctl (snd (Up X opts s))) = Some compiled
       \<and> upRequest X opts compiled
           = (compiled,
              \<lparr>Create = \<lparr>Create_Services = requested,
                          Create_Recreate = Up_Recreate (upOptionsOf X opts compiled),
                          Create_RecreateDependencies = Up_RecreateDependencies (upOptionsOf X opts compiled),
                          Create_RemoveOrphans = Up_RemoveOrphans (upOptionsOf X opts compiled)\<rparr>,
               Start = \<lparr>Start_Project = Some compiled, Start_Wait = Up_Wait (upOptionsOf X opts compiled)\<rparr>\<rparr>)"
  using assms by (simp add: Up_project upRequest_def filterProject_def Let_def)

theorem Up_skips_filter_on_equal_length_witness:
  "compileProject engine_abcd (ctl fresh) = Inr (compiled_of [''A'', ''B'', ''C'', ''D''])
   \<and> [''D'', ''x'', ''B'', ''y'']
       = Up_Services (upOptionsOf engine_abcd [RunServices [''D'', ''x'', ''B'', ''y'']]
                        (compiled_of [''A'', ''B'', ''C'', ''D'']))
   \<and> length [''D'', ''x'', ''B'', ''y'']
       = length (Project_Services (compiled_of [''A'', ''B'', ''C'', ''D'']))
   \<and> project (ctl (snd (Up engine_abcd [RunServices [''D'', ''x'', ''B'', ''y'']] fresh)))
       = Some (compiled_of [''A'', ''B'', ''C'', ''D''])
   \<and> Create_Services (Create (snd (upRequest engine_abcd [RunServices [''D'', ''x'', ''B'', ''y'']]
         (compiled_of [''A'', ''B'', ''C'', ''D''])))) = [''D'', ''x'', ''B'', ''y'']"
proof -
  have h1: "compileProject engine_abcd (ctl fresh) = Inr (compiled_of [''A'', ''B'', ''C'', ''D''])"
    unfolding engine_abcd_def by (rule compile_engine)
  have h2: "[''D'', ''x'', ''B'', ''y'']
       = Up_Services (upOptionsOf engine_abcd [RunServices [''D'', ''x'', ''B'', ''y'']]
                        (compiled_of [''A'', ''B'', ''C'', ''D'']))"
    by (simp add: upOptionsOf_def)
  have h3: "length [''D'', ''x'', ''B'', ''y'']
       = length (Project_Services (compiled_of [''A'', ''B'', ''C'', ''D'']))"
    by (simp add: compiled_of_def)
  from Up_skips_filter_on_equal_length [OF h1 h2 h3] h1 h2 h3 show ?thesis by simp
qed

subsection \<open>The call to the compose service in \<^verbatim>\<open>Up\<close>\<close>

lemma sort_AB: "sort [''A'', ''B''] = [''A'', ''B'']"
  by (simp add: less_char_def)

lemma names_AB: "map Name (Project_Services (compiled_of [''A'', ''B''])) = [''A'', ''B'']"
  by (simp add: compiled_of_def)

lemma upRequest_down:
  "upRequest engine_down [] (compiled_of [''A'', ''B''])
     = (compiled_of [''A'', ''B''], request_of [''A'', ''B''] (compiled_of [''A'', ''B'']))"
proof -
  have "ServiceNames engine_down (compiled_of [''A'', ''B'']) = [''A'', ''B'']"
    by (simp add: engine_down_def engine_def names_AB sort_AB)
  moreover have "length (Project_Services (compiled_of [''A'', ''B''])) = 2"
    by (simp add: compiled_of_def)
  moreover have "RecreateDiverged engine_down = ''diverged''"
    by (simp add: engine_down_def engine_def)
  ultimately show ?thesis
    by (simp add: upRequest_def upOptionsOf_def filterProject_def request_of_def Let_def)
qed

text \<open>
  Claim C8. If the compose service answers the up call with an error, \<^verbatim>\<open>Up\<close> returns that
  error as it is, the up call is the only call issued (no list query, no readiness
  strategy is run), the controller's project stays the compiled (and filtered) project and
  the container cache is untouched. If the service accepts the call and no readiness
  strategy is registered, \<^verbatim>\<open>Up\<close> returns nil and the up call is again the only call.
\<close>

theorem Up_gateway_result:
  assumes "compileProject X (ctl s) = Inr compiled"
      and "upRequest X opts compiled = (proj, apiOptions)"
  shows "(fst (composeService_Up X proj apiOptions (world s)) = Some e \<longrightarrow>
            fst (Up X opts s) = Some (Foreign e)
          \<and> calls (snd (Up X opts s)) = calls s @ [UpCall proj apiOptions]
          \<and> project (ctl (snd (Up X opts s))) = Some proj
          \<and> containers (ctl (snd (Up X opts s))) = containers (ctl s))
       \<and> (fst (composeService_Up X proj apiOptions (world s)) = None
            \<and> waitStrategies (ctl s) = [] \<longrightarrow>
            fst (Up X opts s) = None
          \<and> calls (snd (Up X opts s)) = calls s @ [UpCall proj apiOptions]
          \<and> project (ctl (snd (Up X opts s))) = Some proj
          \<and> containers (ctl (snd (Up X opts s))) = containers (ctl s))"
  using assms by (simp add: Up_def Let_def case_prod_beta)

theorem Up_gateway_result_witness:
  "compileProject engine_down (ctl (WaitForService ''A'' ready fresh)) = Inr (compiled_of [''A'', ''B''])
   \<and> waitStrategies (ctl (WaitForService ''A'' ready fresh)) = [(''A'', ready)]
   \<and> fst (composeService_Up engine_down (compiled_of [''A'', ''B''])
            (request_of [''A'', ''B''] (compiled_of [''A'', ''B'']))
            (world (WaitForService ''A'' ready fresh))) = Some ''engine unreachable''
   \<and> Up engine_down [] (WaitForService ''A'' ready fresh)
       = (Some (Foreign ''engine unreachable''),
          (WaitForService ''A'' ready fresh)
            \<lparr>ctl := (ctl (WaitForService ''A'' ready fresh))\<lparr>project := Some (compiled_of [''A'', ''B''])\<rparr>,
             calls := [UpCall (compiled_of [''A'', ''B''])
                         (request_of [''A'', ''B''] (compiled_of [''A'', ''B'']))]\<rparr>)
   \<and> fst (Up engine_a [RunServices [''A'']] fresh) = None
   \<and> calls (snd (Up engine_a [RunServices [''A'']] fresh))
       = [UpCall (compiled_of [''A'']) (request_of [''A''] (compiled_of [''A'']))]"
proof -
  let ?s = "WaitForService ''A'' ready fresh"
  have ctl: "ctl ?s = (ctl fresh)\<lparr>waitStrategies := [(''A'', ready)]\<rparr>"
    by (simp add: WaitForService_def fresh_def)
  have h1: "compileProject engine_down (ctl ?s) = Inr (compiled_of [''A'', ''B''])"
    using compile_engine [of "[''A'', ''B'']" "Some ''engine unreachable''" "Inr []"]
    by (simp add: ctl engine_down_def compileProject_def)
  have h3: "fst (composeService_Up engine_down (compiled_of [''A'', ''B''])
            (request_of [''A'', ''B''] (compiled_of [''A'', ''B''])) (world ?s)) = Some ''engine unreachable''"
    by (simp add: engine_down_def engine_def)
  have g1: "compileProject engine_a (ctl fresh) = Inr (compiled_of [''A''])"
    unfolding engine_a_def by (rule compile_engine)
  have g2: "upRequest engine_a [RunServices [''A'']] (compiled_of [''A''])
              = (compiled_of [''A''], request_of [''A''] (compiled_of [''A'']))"
    by (simp add: upRequest_def upOptionsOf_def filterProject_def request_of_def Let_def
        compiled_of_def engine_a_def engine_def)
  have g3: "fst (composeService_Up engine_a (compiled_of [''A''])
            (request_of [''A''] (compiled_of [''A''])) (world fresh)) = None
          \<and> waitStrategies (ctl fresh) = []"
    by (simp add: engine_a_def engine_def fresh_def)
  have w: "world ?s = ()" "calls ?s = []" "calls fresh = []"
    by (simp_all add: WaitForService_def fresh_def)
  have st: "snd (Up engine_down [] ?s) =
      ?s\<lparr>ctl := (ctl ?s)\<lparr>project := Some (compiled_of [''A'', ''B''])\<rparr>,
         calls := [UpCall (compiled_of [''A'', ''B'']) (request_of [''A'', ''B''] (compiled_of [''A'', ''B'']))]\<rparr>"
    using h1 upRequest_down h3
    by (cases "composeService_Up engine_down (compiled_of [''A'', ''B''])
            (request_of [''A'', ''B''] (compiled_of [''A'', ''B''])) (world ?s)")
       (simp add: Up_def w)
  from Up_gateway_result [OF h1 upRequest_down, of "''engine unreachable''"]
       Up_gateway_result [OF g1 g2, of undefined] h1 h3 g3 ctl w st
  show ?thesis by (simp add: prod_eq_iff)
qed

subsection \<open>Labels stamped by \<^verbatim>\<open>compileProject\<close>\<close>

lemma stampLabels_Name: "Name (stampLabels X proj co s) = Name s"
  by (simp add: stampLabels_def Let_def)

lemma stampLabels_labels:
  assumes "distinct [ProjectLabel X, ServiceLabel X, VersionLabel X, WorkingDirLabel X,
                     ConfigFilesLabel X, OneoffLabel X, EnvironmentFileLabel X]"
      and "s' = stampLabels X proj co s"
  shows "dom (CustomLabels s') =
           {ProjectLabel X, ServiceLabel X, VersionLabel X, WorkingDirLabel X,
            ConfigFilesLabel X, OneoffLabel X}
           \<union> (if EnvFile co = [] then {} else {EnvironmentFileLabel X})"
    and "CustomLabels s' (ProjectLabel X) = Some (Project_Name proj)"
    and "CustomLabels s' (ServiceLabel X) = Some (Name s')"
    and "CustomLabels s' (VersionLabel X) = Some (ComposeVersion X)"
    and "CustomLabels s' (WorkingDirLabel X) = Some (WorkingDir proj)"
    and "CustomLabels s' (ConfigFilesLabel X) = Some (Join (ComposeFiles proj) '','')"
    and "CustomLabels s' (OneoffLabel X) = Some ''False''"
    and "EnvFile co \<noteq> [] \<longrightarrow> CustomLabels s' (EnvironmentFileLabel X) = Some (EnvFile co)"
    and "EnvFile co = [] \<longrightarrow> CustomLabels s' (EnvironmentFileLabel X) = None"
  using assms(1) unfolding assms(2)
  by (auto simp: stampLabels_def Let_def)

lemma stampLabels_depends:
  assumes "Project_Name proj2 = Project_Name proj" "WorkingDir proj2 = WorkingDir proj"
      and "ComposeFiles proj2 = ComposeFiles proj" "EnvFile co2 = EnvFile co" "Name s2 = Name s1"
  shows "CustomLabels (stampLabels X proj2 co2 s2) = CustomLabels (stampLabels X proj co s1)"
  using assms by (simp add: stampLabels_def Let_def)

text \<open>
  Claim C9. With pairwise different label names, every service of the project returned by
  \<^verbatim>\<open>compileProject\<close> keeps its name and carries exactly the labels project, service, version,
  working directory, config files and one-off, plus the environment-file label exactly
  when the compiled options name an environment file; the values are the project name,
  the service's own name, the compose version, the working directory, the manifest paths
  joined by commas, "False" and the environment-file path. The labels depend on nothing
  else: stamping any service of the same name for any project and options that agree on
  project name, working directory, manifest list and environment file gives the same
  label set.
\<close>

theorem compileProject_labels:
  assumes "distinct [ProjectLabel X, ServiceLabel X, VersionLabel X, WorkingDirLabel X,
                     ConfigFilesLabel X, OneoffLabel X, EnvironmentFileLabel X]"
      and "NewProjectOptions X (configs d)
             (projectOptions d @ [WithName X (name d), WithDefaultConfigPath X]) = Inr co"
      and "ProjectFromOptions X co = Inr proj"
  shows "\<exists>services.
           compileProject X d = Inr (proj\<lparr>Project_Services := services\<rparr>)
         \<and> map Name services = map Name (Project_Services proj)
         \<and> (\<forall>s \<in> set services.
               dom (CustomLabels s) =
                 {ProjectLabel X, ServiceLabel X, VersionLabel X, WorkingDirLabel X,
                  ConfigFilesLabel X, OneoffLabel X}
                 \<union> (if EnvFile co = [] then {} else {EnvironmentFileLabel X})
             \<and> CustomLabels s (ProjectLabel X) = Some (Project_Name proj)
             \<and> CustomLabels s (ServiceLabel X) = Some (Name s)
             \<and> CustomLabels s (VersionLabel X) = Some (ComposeVersion X)
             \<and> CustomLabels s (WorkingDirLabel X) = Some (WorkingDir proj)
             \<and> CustomLabels s (ConfigFilesLabel X) = Some (Join (ComposeFiles proj) '','')
             \<and> CustomLabels s (OneoffLabel X) = Some ''False''
             \<and> (EnvFile co \<noteq> [] \<longrightarrow> CustomLabels s (EnvironmentFileLabel X) = Some (EnvFile co))
             \<and> (\<forall>proj2 co2 s2.
                   Project_Name proj2 = Project_Name proj \<and> WorkingDir proj2 = WorkingDir proj
                 \<and> ComposeFiles proj2 = ComposeFiles proj \<and> EnvFile co2 = EnvFile co
                 \<and> Name s2 = Name s
                 \<longrightarrow> CustomLabels (stampLabels X proj2 co2 s2) = CustomLabels s))"
proof -
  let ?services = "map (stampLabels X proj co) (Project_Services proj)"
  have c: "compileProject X d = Inr (proj\<lparr>Project_Services := ?services\<rparr>)"
    using assms(2,3) by (simp add: compileProject_def Let_def)
  have n: "map Name ?services = map Name (Project_Services proj)"
    by (simp add: stampLabels_Name)
  have l: "dom (CustomLabels s) =
                 {ProjectLabel X, ServiceLabel X, VersionLabel X, WorkingDirLabel X,
                  ConfigFilesLabel X, OneoffLabel X}
                 \<union> (if EnvFile co = [] then {} else {EnvironmentFileLabel X})
             \<and> CustomLabels s (ProjectLabel X) = Some (Project_Name proj)
             \<and> CustomLabels s (ServiceLabel X) = Some (Name s)
             \<and> CustomLabels s (VersionLabel X) = Some (ComposeVersion X)
             \<and> CustomLabels s (WorkingDirLabel X) = Some (WorkingDir proj)
             \<and> CustomLabels s (ConfigFilesLabel X) = Some (Join (ComposeFiles proj) '','')
             \<and> CustomLabels s (OneoffLabel X) = Some ''False''
             \<and> (EnvFile co \<noteq> [] \<longrightarrow> CustomLabels s (EnvironmentFileLabel X) = Some (EnvFile co))
             \<and> (\<forall>proj2 co2 s2.
                   Project_Name proj2 = Project_Name proj \<and> WorkingDir proj2 = WorkingDir proj
                 \<and> ComposeFiles proj2 = ComposeFiles proj \<and> EnvFile co2 = EnvFile co
                 \<and> Name s2 = Name s
                 \<longrightarrow> CustomLabels (stampLabels X proj2 co2 s2) = CustomLabels s)"
    if "s \<in> set ?services" for s
  proof -
    from that obtain s0 where s: "s = stampLabels X proj co s0" by auto
    have "CustomLabels (stampLabels X proj2 co2 s2) = CustomLabels s"
      if "Project_Name proj2 = Project_Name proj" "WorkingDir proj2 = WorkingDir proj"
         "ComposeFiles proj2 = ComposeFiles proj" "EnvFile co2 = EnvFile co" "Name s2 = Name s"
      for proj2 co2 s2
      unfolding s using that by (intro stampLabels_depends) (simp_all add: s stampLabels_Name)
    with stampLabels_labels [OF assms(1) s] show ?thesis by blast
  qed
  from c n l show ?thesis by blast
qed

theorem compileProject_labels_witness:
  "distinct [ProjectLabel engine_envfile, ServiceLabel engine_envfile, VersionLabel engine_envfile,
             WorkingDirLabel engine_envfile, ConfigFilesLabel engine_envfile, OneoffLabel engine_envfile,
             EnvironmentFileLabel engine_envfile]
   \<and> NewProjectOptions engine_envfile (configs (ctl fresh))
        (projectOptions (ctl fresh) @ [WithName engine_envfile (name (ctl fresh)), WithDefaultConfigPath engine_envfile])
       = Inr options_envfile
   \<and> ProjectFromOptions engine_envfile options_envfile = Inr (proj_of [''A'', ''B''])
   \<and> EnvFile options_envfile = ''.env''
   \<and> (\<exists>services.
           compileProject engine_envfile (ctl fresh) = Inr ((proj_of [''A'', ''B''])\<lparr>Project_Services := services\<rparr>)
         \<and> map Name services = map Name (Project_Services (proj_of [''A'', ''B'']))
         \<and> (\<forall>s \<in> set services.
               dom (CustomLabels s) =
                 {ProjectLabel engine_envfile, ServiceLabel engine_envfile, VersionLabel engine_envfile,
                  WorkingDirLabel engine_envfile, ConfigFilesLabel engine_envfile, OneoffLabel engine_envfile}
                 \<union> (if EnvFile options_envfile = [] then {} else {EnvironmentFileLabel engine_envfile})
             \<and> CustomLabels s (ProjectLabel engine_envfile) = Some (Project_Name (proj_of [''A'', ''B'']))
             \<and> CustomLabels s (ServiceLabel engine_envfile) = Some (Name s)
             \<and> CustomLabels s (VersionLabel engine_envfile) = Some (ComposeVersion engine_envfile)
             \<and> CustomLabels s (WorkingDirLabel engine_envfile) = Some (WorkingDir (proj_of [''A'', ''B'']))
             \<and> CustomLabels s (ConfigFilesLabel engine_envfile)
                 = Some (Join (ComposeFiles (proj_of [''A'', ''B''])) '','')
             \<and> CustomLabels s (OneoffLabel engine_envfile) = Some ''False''
             \<and> (EnvFile options_envfile \<noteq> [] \<longrightarrow>
                  CustomLabels s (EnvironmentFileLabel engine_envfile) = Some (EnvFile options_envfile))
             \<and> (\<forall>proj2 co2 s2.
                   Project_Name proj2 = Project_Name (proj_of [''A'', ''B''])
                 \<and> WorkingDir proj2 = WorkingDir (proj_of [''A'', ''B''])
                 \<and> ComposeFiles proj2 = ComposeFiles (proj_of [''A'', ''B''])
                 \<and> EnvFile co2 = EnvFile options_envfile
                 \<and> Name s2 = Name s
                 \<longrightarrow> CustomLabels (stampLabels engine_envfile proj2 co2 s2) = CustomLabels s)))"
proof -
  have h1: "distinct [ProjectLabel engine_envfile, ServiceLabel engine_envfile, VersionLabel engine_envfile,
             WorkingDirLabel engine_envfile, ConfigFilesLabel engine_envfile, OneoffLabel engine_envfile,
             EnvironmentFileLabel engine_envfile]"
    by (simp add: engine_envfile_def engine_def)
  have h2: "NewProjectOptions engine_envfile (configs (ctl fresh))
        (projectOptions (ctl fresh) @ [WithName engine_envfile (name (ctl fresh)), WithDefaultConfigPath engine_envfile])
       = Inr options_envfile"
    by (simp add: engine_envfile_def engine_def fresh_def options_envfile_def options_of_def)
  have h3: "ProjectFromOptions engine_envfile options_envfile = Inr (proj_of [''A'', ''B''])"
    by (simp add: engine_envfile_def engine_def)
  have h4: "EnvFile options_envfile = ''.env''"
    by (simp add: options_envfile_def)
  show ?thesis
    by (intro conjI h1 h2 h3 h4 compileProject_labels [OF h1 h2 h3])
qed

end
